theory Spec2Isabelle
  imports Complex_Main
begin

section \<open>Data model of TextBubbleSkin.js\<close>

text \<open>
  JavaScript numbers are idealised as real numbers: \<open>Math.max\<close>, \<open>Math.min\<close>,
  \<open>Math.abs\<close> and \<open>Math.ceil\<close> are \<open>max\<close>, \<open>min\<close>, \<open>abs\<close> and \<open>ceiling\<close>. The
  special values of IEEE arithmetic (NaN, the infinities, rounding) are outside the model.
\<close>

type_synonym num = real

text \<open>The style object: the keys of \<open>DEFAULT_BUBBLE_STYLE\<close>.\<close>

record style =
  maxLineWidth :: num
  minWidth :: num
  strokeWidth :: num
  padding :: num
  cornerRadius :: num
  tailHeight :: num
  font :: string
  fontSize :: num
  fontHeightRatio :: num
  lineHeight :: num
  bubbleFill :: string
  bubbleStroke :: string
  textFill :: string

text \<open>
  The argument of \<open>setStyle\<close>: an object holding any subset of the style's keys. A key
  that is absent from the object is \<open>None\<close>.
\<close>

record partial_style =
  p_maxLineWidth :: "num option"
  p_minWidth :: "num option"
  p_strokeWidth :: "num option"
  p_padding :: "num option"
  p_cornerRadius :: "num option"
  p_tailHeight :: "num option"
  p_font :: "string option"
  p_fontSize :: "num option"
  p_fontHeightRatio :: "num option"
  p_lineHeight :: "num option"
  p_bubbleFill :: "string option"
  p_bubbleStroke :: "string option"
  p_textFill :: "string option"

definition DEFAULT_BUBBLE_STYLE :: style where
  "DEFAULT_BUBBLE_STYLE =
     \<lparr>maxLineWidth = 170, minWidth = 50, strokeWidth = 4, padding = 10,
      cornerRadius = 16, tailHeight = 12, font = ''Helvetica'', fontSize = 14,
      fontHeightRatio = 9 / 10, lineHeight = 16, bubbleFill = ''white'',
      bubbleStroke = ''rgba(0, 0, 0, 0.15)'', textFill = ''#575E75''\<rparr>"

definition MAX_SCALE :: num where
  "MAX_SCALE = 10"

text \<open>
  The font of the 2D context. \<open>Font sz fam\<close> stands for the string
  \<open>`${sz}px ${fam}, sans-serif`\<close> that \<open>_restyleCanvas\<close> assigns; \<open>DefaultFont\<close> is the
  font of a context whose state was reset (a new or a resized canvas).
\<close>

datatype canvas_font = DefaultFont | Font num string

text \<open>The canvas element together with the state of its 2D context.\<close>

record canvas_el =
  cwidth :: int
  cheight :: int
  cfont :: canvas_font

text \<open>The calls the skin makes on the 2D context, with their arguments.\<close>

datatype ctx_cmd =
    SetFont canvas_font
  | SetTransform num num num num num num
  | ClearRect num num num num
  | Scale num num
  | Translate num num
  | Save
  | Restore
  | BeginPath
  | MoveTo num num
  | ArcTo num num num num num
  | BezierCurveTo num num num num num num
  | Arc num num num num num
  | ClosePath
  | SetFillStyle string
  | SetStrokeStyle string
  | SetLineWidth num
  | Stroke
  | Fill
  | FillText string num num

text \<open>
  Every call the skin makes on a collaborator (the canvas and its context, the text
  wrapper, the measurement provider, the GL context, the base class \<open>Skin\<close>) is recorded,
  in order, in the skin's trace.
\<close>

datatype event =
    Ctx ctx_cmd
  | CanvasWidth int
  | CanvasHeight int
  | GetImageData num num int int
  | WrapText num "string option"
  | MeasureText string
  | ClearCache
  | CreateTexture nat
  | DeleteTexture nat
  | SetTexture "nat option" int int
  | WasAltered
  | SuperDispose

text \<open>
  The exceptions: a \<open>TypeError\<close> for a method called on the null canvas, and the
  \<open>IndexSizeError\<close> of \<open>getImageData\<close> for a region of width or height 0. A call that
  throws yields the exception together with the skin as the throw leaves it.
\<close>

datatype error = TypeError | IndexSizeError

text \<open>
  The collaborators whose code is outside this file, as parameters: the text wrapper the
  renderer creates around the measurement provider (it may read and fill the provider's
  cache), and the width the 2D context measures for a string under a font.
\<close>

record env =
  wrapText :: "(string \<rightharpoonup> num) \<Rightarrow> canvas_font \<Rightarrow> num \<Rightarrow> string option
                 \<Rightarrow> string list \<times> (string \<rightharpoonup> num)"
  ctxMeasure :: "canvas_font \<Rightarrow> string \<Rightarrow> num"

text \<open>
  The fields of a \<open>TextBubbleSkin\<close>. \<open>canvasLive\<close> says that \<open>this._canvas\<close> is not null;
  \<open>canvas\<close> is the canvas element itself, which the measurement provider's context keeps
  alive. \<open>skinText\<close> is \<open>this._text\<close> (\<open>None\<close>: undefined, before the first
  \<open>setTextBubble\<close>), \<open>skinSize\<close> is \<open>this._size\<close>, \<open>texture\<close> is \<open>this._texture\<close> (\<open>None\<close>:
  null), \<open>cache\<close> is the measurement provider's cache, \<open>glNext\<close> the next texture handle
  the GL context hands out.
\<close>

record skin =
  canvasLive :: bool
  canvas :: canvas_el
  skinSize :: "num \<times> num"
  renderedScale :: num
  lines :: "string list"
  textAreaSize :: "num \<times> num"
  bubbleType :: string
  pointsLeft :: bool
  skinText :: "string option"
  textDirty :: bool
  textureDirty :: bool
  style :: style
  texture :: "nat option"
  cache :: "string \<rightharpoonup> num"
  glNext :: nat
  trace :: "event list"

section \<open>Collaborators\<close>

definition emit :: "event \<Rightarrow> skin \<Rightarrow> skin" where
  "emit e s = s\<lparr>trace := trace s @ [e]\<rparr>"

definition emitWasAltered :: "skin \<Rightarrow> skin" where
  \<comment> \<open>Modelled from the spec: \<open>Skin.emitWasAltered\<close> (Skin.js is not among the sources)
      emits the "visual changed" notification to the owner.\<close>
  "emitWasAltered s = emit WasAltered s"

definition superDispose :: "skin \<Rightarrow> skin" where
  \<comment> \<open>Modelled from the spec: \<open>Skin.dispose\<close> (Skin.js is not among the sources); the
      disposal chaining touches no field of the text bubble.\<close>
  "superDispose s = emit SuperDispose s"

definition setTexture :: "int \<times> int \<Rightarrow> skin \<Rightarrow> skin" where
  \<comment> \<open>Modelled from the spec: \<open>Skin._setTexture\<close> (Skin.js is not among the sources)
      uploads the pixel buffer to the skin's texture resource, resizing it to match.\<close>
  "setTexture d s = emit (SetTexture (texture s) (fst d) (snd d)) s"

definition clearCache :: "skin \<Rightarrow> skin" where
  \<comment> \<open>Modelled from the spec: \<open>CanvasMeasurementProvider.clearCache\<close>
      (util/canvas-measurement-provider.js is not among the sources) empties the
      memoized width cache.\<close>
  "clearCache s = emit ClearCache (s\<lparr>cache := Map.empty\<rparr>)"

definition measureText :: "env \<Rightarrow> string \<Rightarrow> skin \<Rightarrow> num \<times> skin" where
  \<comment> \<open>Modelled from the spec: \<open>CanvasMeasurementProvider.measureText\<close>
      (util/canvas-measurement-provider.js is not among the sources) measures the width
      of a line under the context's current font, memoized per string.\<close>
  "measureText E l s =
     (case cache s l of
        Some w \<Rightarrow> (w, emit (MeasureText l) s)
      | None \<Rightarrow>
          (let w = ctxMeasure E (cfont (canvas s)) l
           in (w, emit (MeasureText l) (s\<lparr>cache := (cache s)(l \<mapsto> w)\<rparr>))))"

definition createTexture :: "skin \<Rightarrow> skin" where
  \<comment> \<open>\<open>this._texture = twgl.createTexture(gl, textureOptions)\<close>: the GL context hands out
      a fresh handle.\<close>
  "createTexture s =
     emit (CreateTexture (glNext s)) (s\<lparr>texture := Some (glNext s), glNext := Suc (glNext s)\<rparr>)"

section \<open>The methods of TextBubbleSkin\<close>

definition restyleCanvas :: "skin \<Rightarrow> error \<times> skin + skin" where
  "restyleCanvas s =
     (if canvasLive s
      then Inr (emit (Ctx (SetFont (Font (fontSize (style s)) (font (style s)))))
             (s\<lparr>canvas := (canvas s)\<lparr>cfont := Font (fontSize (style s)) (font (style s))\<rparr>\<rparr>))
      else Inl (TypeError, s))"

definition initSkin :: skin where
  \<comment> \<open>The fields as the constructor sets them, before its call of \<open>_restyleCanvas\<close>.
      \<open>super(id, renderer)\<close> is modelled from the spec: the skin starts with no GPU
      texture. A new canvas element is 300 by 150.\<close>
  "initSkin =
     \<lparr>canvasLive = True, canvas = \<lparr>cwidth = 300, cheight = 150, cfont = DefaultFont\<rparr>,
      skinSize = (0, 0), renderedScale = 0, lines = [], textAreaSize = (0, 0),
      bubbleType = [], pointsLeft = False, skinText = None, textDirty = True,
      textureDirty = True, style = DEFAULT_BUBBLE_STYLE, texture = None,
      cache = Map.empty, glNext = 0, trace = []\<rparr>"

definition newSkin :: "error \<times> skin + skin" where
  "newSkin = restyleCanvas initSkin"

definition dispose :: "skin \<Rightarrow> skin" where
  "dispose s =
     (let s1 = (case texture s of
                  Some t \<Rightarrow> (emit (DeleteTexture t) s)\<lparr>texture := None\<rparr>
                | None \<Rightarrow> s)
      in superDispose (s1\<lparr>canvasLive := False\<rparr>))"

definition setTextBubble :: "string \<Rightarrow> string \<Rightarrow> bool \<Rightarrow> skin \<Rightarrow> skin" where
  "setTextBubble type txt left s =
     emitWasAltered
       (s\<lparr>skinText := Some txt, bubbleType := type, pointsLeft := left,
          textDirty := True, textureDirty := True\<rparr>)"

definition assign :: "style \<Rightarrow> partial_style \<Rightarrow> style" where
  \<comment> \<open>\<open>Object.assign({}, this._style, newStyle)\<close>\<close>
  "assign cur new =
     \<lparr>maxLineWidth = (case p_maxLineWidth new of Some v \<Rightarrow> v | None \<Rightarrow> maxLineWidth cur),
      minWidth = (case p_minWidth new of Some v \<Rightarrow> v | None \<Rightarrow> minWidth cur),
      strokeWidth = (case p_strokeWidth new of Some v \<Rightarrow> v | None \<Rightarrow> strokeWidth cur),
      padding = (case p_padding new of Some v \<Rightarrow> v | None \<Rightarrow> padding cur),
      cornerRadius = (case p_cornerRadius new of Some v \<Rightarrow> v | None \<Rightarrow> cornerRadius cur),
      tailHeight = (case p_tailHeight new of Some v \<Rightarrow> v | None \<Rightarrow> tailHeight cur),
      font = (case p_font new of Some v \<Rightarrow> v | None \<Rightarrow> font cur),
      fontSize = (case p_fontSize new of Some v \<Rightarrow> v | None \<Rightarrow> fontSize cur),
      fontHeightRatio =
        (case p_fontHeightRatio new of Some v \<Rightarrow> v | None \<Rightarrow> fontHeightRatio cur),
      lineHeight = (case p_lineHeight new of Some v \<Rightarrow> v | None \<Rightarrow> lineHeight cur),
      bubbleFill = (case p_bubbleFill new of Some v \<Rightarrow> v | None \<Rightarrow> bubbleFill cur),
      bubbleStroke = (case p_bubbleStroke new of Some v \<Rightarrow> v | None \<Rightarrow> bubbleStroke cur),
      textFill = (case p_textFill new of Some v \<Rightarrow> v | None \<Rightarrow> textFill cur)\<rparr>"

definition setStyle :: "partial_style \<Rightarrow> skin \<Rightarrow> error \<times> skin + skin" where
  "setStyle newStyle s =
     (case restyleCanvas (clearCache (s\<lparr>style := assign (style s) newStyle\<rparr>)) of
        Inl e \<Rightarrow> Inl e
      | Inr s1 \<Rightarrow> Inr (emitWasAltered (s1\<lparr>textDirty := True, textureDirty := True\<rparr>)))"

text \<open>The loop of \<open>_reflowLines\<close> over the wrapped lines.\<close>

fun longestLine :: "env \<Rightarrow> string list \<Rightarrow> num \<Rightarrow> skin \<Rightarrow> num \<times> skin" where
  "longestLine E [] longestLineWidth s = (longestLineWidth, s)"
| "longestLine E (l # ls) longestLineWidth s =
     (case measureText E l s of
        (w, s1) \<Rightarrow> longestLine E ls (max longestLineWidth w) s1)"

definition reflowLines :: "env \<Rightarrow> skin \<Rightarrow> skin" where
  "reflowLines E s =
     (case wrapText E (cache s) (cfont (canvas s)) (maxLineWidth (style s)) (skinText s) of
        (ls, c) \<Rightarrow>
          (case longestLine E ls 0
                  (emit (WrapText (maxLineWidth (style s)) (skinText s))
                     (s\<lparr>lines := ls, cache := c\<rparr>)) of
             (longestLineWidth, s1) \<Rightarrow>
               (let paddedWidth =
                      max longestLineWidth (minWidth (style s1)) + padding (style s1) * 2;
                    paddedHeight =
                      lineHeight (style s1) * real (length (lines s1)) + padding (style s1) * 2
                in s1\<lparr>textAreaSize := (paddedWidth, paddedHeight),
                      skinSize := (paddedWidth + strokeWidth (style s1),
                                   paddedHeight + strokeWidth (style s1) + tailHeight (style s1)),
                      textDirty := False\<rparr>)))"

definition getSize :: "env \<Rightarrow> skin \<Rightarrow> (num \<times> num) \<times> skin" where
  \<comment> \<open>the getter \<open>size\<close>\<close>
  "getSize E s =
     (let s1 = (if textDirty s then reflowLines E s else s) in (skinSize s1, s1))"

text \<open>The \<open>fillText\<close> loop of \<open>_renderTextBubble\<close>, from line number \<open>lineNumber\<close> on.\<close>

fun fillLines :: "style \<Rightarrow> nat \<Rightarrow> string list \<Rightarrow> ctx_cmd list" where
  "fillLines st lineNumber [] = []"
| "fillLines st lineNumber (line # ls) =
     FillText line (padding st)
       (padding st + lineHeight st * real lineNumber + fontHeightRatio st * fontSize st)
     # fillLines st (Suc lineNumber) ls"

text \<open>The tail of the bubble: one swoop for a speech bubble, circles otherwise.\<close>

definition tailCmds :: "string \<Rightarrow> ctx_cmd list" where
  "tailCmds type =
     (if type = ''say''
      then [BezierCurveTo 0 4 4 8 4 10, ArcTo 4 12 2 12 2, BezierCurveTo (-1) 12 (-11) 8 (-16) 0,
            ClosePath]
      else [Arc (-16) 0 4 0 pi, ClosePath,
            MoveTo (-7) (29 / 4), Arc (- (37 / 4)) (29 / 4) (9 / 4) 0 (pi * 2),
            MoveTo 0 (19 / 2), Arc (- (3 / 2)) (19 / 2) (3 / 2) 0 (pi * 2)])"

text \<open>
  The calls \<open>_renderTextBubble\<close> makes on the context once the canvas is resized and
  restyled, for the skin \<open>s\<close> and the scale \<open>scale\<close>.
\<close>

definition drawCmds :: "num \<Rightarrow> skin \<Rightarrow> ctx_cmd list" where
  "drawCmds scale s =
     (let st = style s;
          paddedWidth = fst (textAreaSize s);
          paddedHeight = snd (textAreaSize s)
      in [SetTransform 1 0 0 1 0 0,
          ClearRect 0 0 (real_of_int (cwidth (canvas s))) (real_of_int (cheight (canvas s))),
          Scale scale scale,
          Translate (strokeWidth st * (1 / 2)) (strokeWidth st * (1 / 2)),
          Save]
         @ (if pointsLeft s then [Scale (-1) 1, Translate (- paddedWidth) 0] else [])
         @ [BeginPath,
            MoveTo (cornerRadius st) paddedHeight,
            ArcTo 0 paddedHeight 0 (paddedHeight - cornerRadius st) (cornerRadius st),
            ArcTo 0 0 paddedWidth 0 (cornerRadius st),
            ArcTo paddedWidth 0 paddedWidth paddedHeight (cornerRadius st),
            ArcTo paddedWidth paddedHeight (paddedWidth - cornerRadius st) paddedHeight
              (cornerRadius st),
            Save,
            Translate (paddedWidth - cornerRadius st) paddedHeight]
         @ tailCmds (bubbleType s)
         @ [Restore,
            SetFillStyle (bubbleFill st),
            SetStrokeStyle (bubbleStroke st),
            SetLineWidth (strokeWidth st),
            Stroke,
            Fill,
            Restore,
            SetFillStyle (textFill st)]
         @ fillLines st 0 (lines s))"

definition setCanvasWidth :: "int \<Rightarrow> skin \<Rightarrow> skin" where
  \<comment> \<open>\<open>this._canvas.width = w\<close>: resizing a canvas resets the state of its context.\<close>
  "setCanvasWidth w s =
     emit (CanvasWidth w) (s\<lparr>canvas := (canvas s)\<lparr>cwidth := w, cfont := DefaultFont\<rparr>\<rparr>)"

definition setCanvasHeight :: "int \<Rightarrow> skin \<Rightarrow> skin" where
  \<comment> \<open>\<open>this._canvas.height = h\<close>\<close>
  "setCanvasHeight h s =
     emit (CanvasHeight h) (s\<lparr>canvas := (canvas s)\<lparr>cheight := h, cfont := DefaultFont\<rparr>\<rparr>)"

definition renderTextBubble :: "env \<Rightarrow> num \<Rightarrow> skin \<Rightarrow> error \<times> skin + skin" where
  "renderTextBubble E scale s =
     (if \<not> canvasLive s then Inl (TypeError, s)
      else
        (let s1 = (if textDirty s then reflowLines E s else s);
             s2 = setCanvasWidth \<lceil>fst (skinSize s1) * scale\<rceil> s1;
             s3 = setCanvasHeight \<lceil>snd (skinSize s2) * scale\<rceil> s2
         in case restyleCanvas s3 of
              Inl e \<Rightarrow> Inl e
            | Inr s4 \<Rightarrow>
                Inr (s4\<lparr>trace := trace s4 @ map Ctx (drawCmds scale s4),
                        renderedScale := scale\<rparr>)))"

definition requestedScale :: "(num \<times> num) option \<Rightarrow> num" where
  \<comment> \<open>\<open>scaleMax\<close> and \<open>requestedScale\<close> of \<open>getTexture\<close>; \<open>None\<close> is a missing argument.\<close>
  "requestedScale scale =
     (let scaleMax = (case scale of Some (x, y) \<Rightarrow> max \<bar>x\<bar> \<bar>y\<bar> | None \<Rightarrow> 100)
      in min MAX_SCALE (scaleMax / 100))"

definition getImageData :: "skin \<Rightarrow> error \<times> skin + (int \<times> int) \<times> skin" where
  \<comment> \<open>\<open>this._canvas.getContext('2d').getImageData(0, 0, width, height)\<close>, which throws
      for a region of width or height 0; the pixel buffer is represented by its
      dimensions.\<close>
  "getImageData s =
     (if \<not> canvasLive s then Inl (TypeError, s)
      else
        (let s1 = emit (GetImageData 0 0 (cwidth (canvas s)) (cheight (canvas s))) s
         in if cwidth (canvas s) = 0 \<or> cheight (canvas s) = 0 then Inl (IndexSizeError, s1)
            else Inr ((cwidth (canvas s), cheight (canvas s)), s1)))"

definition getTexture ::
  "env \<Rightarrow> (num \<times> num) option \<Rightarrow> skin \<Rightarrow> error \<times> skin + nat option \<times> skin" where
  "getTexture E scale s =
     (if textureDirty s \<or> renderedScale s \<noteq> requestedScale scale
      then
        (case renderTextBubble E (requestedScale scale) s of
           Inl e \<Rightarrow> Inl e
         | Inr s1 \<Rightarrow>
             (case getImageData (s1\<lparr>textureDirty := False\<rparr>) of
                Inl e \<Rightarrow> Inl e
              | Inr (textureData, s2) \<Rightarrow>
                  (let s3 = (if texture s2 = None then createTexture s2 else s2);
                       s4 = setTexture textureData s3
                   in Inr (texture s4, s4))))
      else Inr (texture s, s))"

definition updateSilhouette ::
  "env \<Rightarrow> (num \<times> num) option \<Rightarrow> skin \<Rightarrow> error \<times> skin + skin" where
  \<comment> \<open>the default argument is \<open>[100, 100]\<close>\<close>
  "updateSilhouette E scale s =
     (case getTexture E (Some (case scale of Some v \<Rightarrow> v | None \<Rightarrow> (100, 100))) s of
        Inl e \<Rightarrow> Inl e
      | Inr (t, s1) \<Rightarrow> Inr s1)"

section \<open>Observations used by the properties\<close>

text \<open>
  The width \<open>measureText\<close> returns for a line when the provider's cache is \<open>c\<close> and the
  context's font is \<open>f\<close>, and the cache after measuring the lines \<open>ls\<close> in order.
\<close>

definition lineWidth :: "env \<Rightarrow> canvas_font \<Rightarrow> (string \<rightharpoonup> num) \<Rightarrow> string \<Rightarrow> num" where
  "lineWidth E f c l = (case c l of Some w \<Rightarrow> w | None \<Rightarrow> ctxMeasure E f l)"

fun fillCache :: "env \<Rightarrow> canvas_font \<Rightarrow> string list \<Rightarrow> (string \<rightharpoonup> num) \<Rightarrow> (string \<rightharpoonup> num)" where
  "fillCache E f [] c = c"
| "fillCache E f (l # ls) c =
     fillCache E f ls (case c l of Some w \<Rightarrow> c | None \<Rightarrow> c(l \<mapsto> ctxMeasure E f l))"

text \<open>
  The widths \<open>_reflowLines\<close> measures: one for each line the wrapper returns, against the
  cache the wrapper leaves behind.
\<close>

definition measuredWidths :: "env \<Rightarrow> skin \<Rightarrow> num list" where
  "measuredWidths E s =
     (case wrapText E (cache s) (cfont (canvas s)) (maxLineWidth (style s)) (skinText s) of
        (ls, c) \<Rightarrow> map (lineWidth E (cfont (canvas s)) c) ls)"

text \<open>Counting the calls of one kind in a trace.\<close>

fun isUpload :: "event \<Rightarrow> bool" where
  "isUpload (SetTexture t w h) = True"
| "isUpload e = False"

fun isRaster :: "event \<Rightarrow> bool" where
  "isRaster (Ctx (ClearRect x y w h)) = True"
| "isRaster e = False"

fun isCreate :: "event \<Rightarrow> bool" where
  "isCreate (CreateTexture t) = True"
| "isCreate e = False"

fun isDelete :: "event \<Rightarrow> bool" where
  "isDelete (DeleteTexture t) = True"
| "isDelete e = False"

fun isWrap :: "event \<Rightarrow> bool" where
  "isWrap (WrapText w t) = True"
| "isWrap e = False"

fun isMeasure :: "event \<Rightarrow> bool" where
  "isMeasure (MeasureText l) = True"
| "isMeasure e = False"

definition occurrences :: "(event \<Rightarrow> bool) \<Rightarrow> event list \<Rightarrow> nat" where
  "occurrences P tr = length (filter P tr)"

text \<open>
  The canvas after the resize and restyle of \<open>_renderTextBubble\<close> at a scale, and the
  calls that resize and restyle it.
\<close>

definition resized :: "num \<Rightarrow> skin \<Rightarrow> canvas_el" where
  "resized scale s =
     (canvas s)\<lparr>cwidth := \<lceil>fst (skinSize s) * scale\<rceil>,
                cheight := \<lceil>snd (skinSize s) * scale\<rceil>,
                cfont := Font (fontSize (style s)) (font (style s))\<rparr>"

definition resizeEvents :: "num \<Rightarrow> skin \<Rightarrow> event list" where
  "resizeEvents scale s =
     [CanvasWidth \<lceil>fst (skinSize s) * scale\<rceil>,
      CanvasHeight \<lceil>snd (skinSize s) * scale\<rceil>,
      Ctx (SetFont (Font (fontSize (style s)) (font (style s))))]"

text \<open>
  \<open>occurs_before a b xs\<close>: some \<open>b\<close> stands after the first \<open>a\<close> of \<open>xs\<close>, that is (for
  \<open>a \<noteq> b\<close>) an \<open>a\<close> stands before a \<open>b\<close>. \<open>renderEvents\<close> are the calls one run of
  \<open>_renderTextBubble\<close> adds to the trace.
\<close>

definition occurs_before :: "'a \<Rightarrow> 'a \<Rightarrow> 'a list \<Rightarrow> bool" where
  "occurs_before a b xs = (b \<in> set (dropWhile (\<lambda>x. x \<noteq> a) xs))"

definition renderEvents :: "env \<Rightarrow> num \<Rightarrow> skin \<Rightarrow> event list" where
  "renderEvents E scale s =
     (case renderTextBubble E scale s of
        Inl e \<Rightarrow> []
      | Inr r \<Rightarrow> drop (length (trace s)) (trace r))"

text \<open>
  The skin a call leaves behind, whether it returned or threw, and whether the surface
  \<open>_renderTextBubble\<close> sizes for a skin at a scale is empty (of width or height 0).
\<close>

definition stateAfter :: "error \<times> skin + 'a \<times> skin \<Rightarrow> skin" where
  "stateAfter r = (case r of Inl (e, s) \<Rightarrow> s | Inr (x, s) \<Rightarrow> s)"

definition surfaceEmpty :: "env \<Rightarrow> num \<Rightarrow> skin \<Rightarrow> bool" where
  "surfaceEmpty E scale s =
     (\<lceil>fst (fst (getSize E s)) * scale\<rceil> = 0 \<or> \<lceil>snd (fst (getSize E s)) * scale\<rceil> = 0)"

text \<open>
  The test of \<open>getTexture\<close>, and the statement that two successive calls of \<open>getTexture\<close>
  at one scale return the same texture and rasterize and upload exactly once in total.
  \<open>notifications\<close> counts the "visual changed" notifications a skin has emitted.
\<close>

definition needsRender :: "(num \<times> num) option \<Rightarrow> skin \<Rightarrow> bool" where
  "needsRender scale s = (textureDirty s \<or> renderedScale s \<noteq> requestedScale scale)"


definition notifications :: "skin \<Rightarrow> nat" where
  "notifications s = occurrences (\<lambda>e. e = WasAltered) (trace s)"

text \<open>
  A concrete text wrapper and context for the examples: the wrapper returns the text as
  one line, and every character is 7 pixels wide.
\<close>

definition exampleEnv :: env where
  "exampleEnv =
     \<lparr>wrapText = (\<lambda>c f w t. ([case t of Some x \<Rightarrow> x | None \<Rightarrow> []], c)),
      ctxMeasure = (\<lambda>f l. 7 * real (length l))\<rparr>"

definition helloSkin :: skin where
  "helloSkin = setTextBubble ''say'' ''Hi'' False initSkin"

text \<open>
  The skin of the examples after its first \<open>getTexture()\<close>, and the style argument
  \<open>{fontSize: 30}\<close>.
\<close>

definition shownSkin :: skin where
  "shownSkin = (case getTexture exampleEnv None helloSkin of Inr (t, s) \<Rightarrow> s | Inl e \<Rightarrow> helloSkin)"

definition bigFont :: partial_style where
  "bigFont =
     \<lparr>p_maxLineWidth = None, p_minWidth = None, p_strokeWidth = None, p_padding = None,
      p_cornerRadius = None, p_tailHeight = None, p_font = None, p_fontSize = Some 30,
      p_fontHeightRatio = None, p_lineHeight = None, p_bubbleFill = None,
      p_bubbleStroke = None, p_textFill = None\<rparr>"


section \<open>Properties\<close>

lemma trace_emit: "trace (emit e s) = trace s @ [e]"
  by (simp add: emit_def)

lemma occurrences_append: "occurrences P (a @ b) = occurrences P a + occurrences P b"
  by (simp add: occurrences_def)

lemma occurrences_Nil: "occurrences P [] = 0"
  by (simp add: occurrences_def)

lemma occurrences_Cons: "occurrences P (e # tr) = (if P e then 1 else 0) + occurrences P tr"
  by (simp add: occurrences_def)

lemma lineWidth_upd:
  "c k = None \<Longrightarrow> lineWidth E f (c(k \<mapsto> ctxMeasure E f k)) l = lineWidth E f c l"
  by (simp add: lineWidth_def)

lemma measureText_hit:
  "cache s l = Some w \<Longrightarrow> measureText E l s = (w, s\<lparr>trace := trace s @ [MeasureText l]\<rparr>)"
  by (simp add: measureText_def emit_def)

lemma measureText_miss:
  "cache s l = None \<Longrightarrow>
   measureText E l s =
     (ctxMeasure E (cfont (canvas s)) l,
      s\<lparr>cache := (cache s)(l \<mapsto> ctxMeasure E (cfont (canvas s)) l),
        trace := trace s @ [MeasureText l]\<rparr>)"
  by (simp add: measureText_def emit_def Let_def)

lemma longestLine_eq:
  "longestLine E ls a s =
     (fold max (map (lineWidth E (cfont (canvas s)) (cache s)) ls) a,
      s\<lparr>cache := fillCache E (cfont (canvas s)) ls (cache s),
        trace := trace s @ map MeasureText ls\<rparr>)"
proof (induction ls arbitrary: a s)
  case Nil
  show ?case by simp
next
  case (Cons l ls)
  show ?case
  proof (cases "cache s l")
    case None
    have w: "lineWidth E (cfont (canvas s)) (cache s) l = ctxMeasure E (cfont (canvas s)) l"
      using None by (simp add: lineWidth_def)
    show ?thesis
      using None by (simp add: measureText_miss Cons.IH lineWidth_upd w max.commute del: fun_upd_apply)
  next
    case (Some w)
    have w: "lineWidth E (cfont (canvas s)) (cache s) l = w"
      using Some by (simp add: lineWidth_def)
    show ?thesis
      using Some by (simp add: measureText_hit Cons.IH w max.commute)
  qed
qed

lemma fold_max_Max: "fold max ws (a::real) = Max (insert a (set ws))"
  using Max.set_eq_fold [of a ws] by simp


lemma reflowLines_eq:
  assumes "wrapText E (cache s) (cfont (canvas s)) (maxLineWidth (style s)) (skinText s) = (ls, c)"
  shows "reflowLines E s =
     s\<lparr>lines := ls,
       cache := fillCache E (cfont (canvas s)) ls c,
       trace := trace s @ WrapText (maxLineWidth (style s)) (skinText s) # map MeasureText ls,
       textAreaSize :=
         (max (fold max (map (lineWidth E (cfont (canvas s)) c) ls) 0) (minWidth (style s))
            + padding (style s) * 2,
          lineHeight (style s) * real (length ls) + padding (style s) * 2),
       skinSize :=
         (max (fold max (map (lineWidth E (cfont (canvas s)) c) ls) 0) (minWidth (style s))
            + padding (style s) * 2 + strokeWidth (style s),
          lineHeight (style s) * real (length ls) + padding (style s) * 2
            + strokeWidth (style s) + tailHeight (style s)),
       textDirty := False\<rparr>"
  using assms
  by (simp add: reflowLines_def longestLine_eq emit_def Let_def del: fun_upd_apply)

lemma reflowLines_frame:
  "canvasLive (reflowLines E s) = canvasLive s"
  "canvas (reflowLines E s) = canvas s"
  "style (reflowLines E s) = style s"
  "texture (reflowLines E s) = texture s"
  "textureDirty (reflowLines E s) = textureDirty s"
  "renderedScale (reflowLines E s) = renderedScale s"
  "glNext (reflowLines E s) = glNext s"
  "bubbleType (reflowLines E s) = bubbleType s"
  "pointsLeft (reflowLines E s) = pointsLeft s"
  "skinText (reflowLines E s) = skinText s"
  "textDirty (reflowLines E s) = False"
  by (cases "wrapText E (cache s) (cfont (canvas s)) (maxLineWidth (style s)) (skinText s)",
      simp add: reflowLines_eq)+

lemma reflowLines_trace:
  "trace (reflowLines E s) =
     trace s @ WrapText (maxLineWidth (style s)) (skinText s) # map MeasureText (lines (reflowLines E s))"
  by (cases "wrapText E (cache s) (cfont (canvas s)) (maxLineWidth (style s)) (skinText s)")
     (simp add: reflowLines_eq)

lemma occurrences_map_MeasureText:
  "occurrences isUpload (map MeasureText ls) = 0"
  "occurrences isRaster (map MeasureText ls) = 0"
  "occurrences isCreate (map MeasureText ls) = 0"
  "occurrences isDelete (map MeasureText ls) = 0"
  "occurrences isWrap (map MeasureText ls) = 0"
  "occurrences (\<lambda>e. e = WasAltered) (map MeasureText ls) = 0"
  "occurrences isMeasure (map MeasureText ls) = length ls"
  by (induction ls) (simp_all add: occurrences_def)

lemma reflowLines_occurrences:
  "occurrences isUpload (trace (reflowLines E s)) = occurrences isUpload (trace s)"
  "occurrences isRaster (trace (reflowLines E s)) = occurrences isRaster (trace s)"
  "occurrences isCreate (trace (reflowLines E s)) = occurrences isCreate (trace s)"
  "occurrences isDelete (trace (reflowLines E s)) = occurrences isDelete (trace s)"
  "occurrences (\<lambda>e. e = WasAltered) (trace (reflowLines E s)) =
     occurrences (\<lambda>e. e = WasAltered) (trace s)"
  "occurrences isWrap (trace (reflowLines E s)) = occurrences isWrap (trace s) + 1"
  "occurrences isMeasure (trace (reflowLines E s)) =
     occurrences isMeasure (trace s) + length (lines (reflowLines E s))"
  by (simp_all add: reflowLines_trace occurrences_append occurrences_Cons
        occurrences_map_MeasureText)

text \<open>
  C3. After \<open>_reflowLines\<close>, for every style and whatever lines the wrapper returns: the
  width of the text area is the larger of the longest line's width and \<open>minWidth\<close>, plus
  twice the padding; its height is \<open>lineHeight\<close> times the number of lines, plus twice
  the padding; the total width adds \<open>strokeWidth\<close>, the total height adds \<open>strokeWidth\<close>
  and \<open>tailHeight\<close>. The longest line's width is the maximum of the widths measured for
  the wrapped lines, starting from 0 (the loop's initial value); where there is a line and
  no measured width is negative, that is the maximum of the measured widths.
\<close>

theorem reflowLines_sizes:
  "textAreaSize (reflowLines E s) =
     (max (Max (insert 0 (set (measuredWidths E s)))) (minWidth (style s))
        + 2 * padding (style s),
      lineHeight (style s) * real (length (lines (reflowLines E s))) + 2 * padding (style s))
   \<and> skinSize (reflowLines E s) =
     (fst (textAreaSize (reflowLines E s)) + strokeWidth (style s),
      snd (textAreaSize (reflowLines E s)) + strokeWidth (style s) + tailHeight (style s))
   \<and> lines (reflowLines E s) =
       fst (wrapText E (cache s) (cfont (canvas s)) (maxLineWidth (style s)) (skinText s))
   \<and> length (measuredWidths E s) = length (lines (reflowLines E s))
   \<and> style (reflowLines E s) = style s
   \<and> (measuredWidths E s \<noteq> [] \<and> (\<forall>w \<in> set (measuredWidths E s). 0 \<le> w)
        \<longrightarrow> Max (insert 0 (set (measuredWidths E s))) = Max (set (measuredWidths E s)))"
proof -
  obtain ls c where
    w: "wrapText E (cache s) (cfont (canvas s)) (maxLineWidth (style s)) (skinText s) = (ls, c)"
    by (cases "wrapText E (cache s) (cfont (canvas s)) (maxLineWidth (style s)) (skinText s)")
  have m: "measuredWidths E s = map (lineWidth E (cfont (canvas s)) c) ls"
    by (simp add: measuredWidths_def w)
  have floor: "Max (insert 0 (set ws)) = Max (set ws)"
    if ne: "ws \<noteq> []" and nn: "\<forall>w \<in> set ws. 0 \<le> w" for ws :: "num list"
  proof -
    obtain x where x: "x \<in> set ws" using ne by (cases ws) auto
    have "0 \<le> x" using nn x by blast
    moreover have "x \<le> Max (set ws)" using x by simp
    ultimately have "0 \<le> Max (set ws)" by linarith
    then show ?thesis
      using ne by (simp add: max_def)
  qed
  show ?thesis
    using floor [of "measuredWidths E s"]
    by (simp add: reflowLines_eq [OF w] m w fold_max_Max)
qed

theorem reflowLines_sizes_witness:
  "measuredWidths exampleEnv helloSkin = [14]
   \<and> Max (insert 0 (set (measuredWidths exampleEnv helloSkin))) = Max (set (measuredWidths exampleEnv helloSkin))
   \<and> textAreaSize (reflowLines exampleEnv helloSkin) = (70, 36)
   \<and> skinSize (reflowLines exampleEnv helloSkin) = (74, 52)"
proof -
  have m: "measuredWidths exampleEnv helloSkin = [14]"
    by (simp add: measuredWidths_def exampleEnv_def helloSkin_def setTextBubble_def
          emitWasAltered_def emit_def initSkin_def lineWidth_def)
  have st: "style helloSkin = DEFAULT_BUBBLE_STYLE"
    by (simp add: helloSkin_def setTextBubble_def emitWasAltered_def emit_def initSkin_def)
  have l: "length (lines (reflowLines exampleEnv helloSkin)) = 1"
    using reflowLines_sizes [of exampleEnv helloSkin] by (simp add: m)
  show ?thesis
    using reflowLines_sizes [of exampleEnv helloSkin] l
    by (simp add: m st DEFAULT_BUBBLE_STYLE_def)
qed

lemma getSize_eq:
  "getSize E s = (skinSize (if textDirty s then reflowLines E s else s),
                  if textDirty s then reflowLines E s else s)"
  by (simp add: getSize_def Let_def)

text \<open>
  C4. Reading \<open>size\<close> twice in a row, with no call of \<open>setTextBubble\<close> or \<open>setStyle\<close> in
  between, gives the same result twice: the second call returns what the first returned
  and leaves the whole skin, its trace included, as the first call left it. Across the two
  calls the text wrapper is called once if the layout was dirty and not at all otherwise,
  and the lines are measured once at most. \<open>_reflowLines\<close> clears the layout-dirty flag.
\<close>

theorem getSize_idempotent:
  "getSize E (snd (getSize E s)) = getSize E s
   \<and> \<not> textDirty (reflowLines E s)
   \<and> \<not> textDirty (snd (getSize E s))
   \<and> occurrences isWrap (trace (snd (getSize E (snd (getSize E s))))) =
       occurrences isWrap (trace s) + (if textDirty s then 1 else 0)
   \<and> occurrences isMeasure (trace (snd (getSize E (snd (getSize E s))))) =
       occurrences isMeasure (trace s)
         + (if textDirty s then length (lines (snd (getSize E s))) else 0)"
  by (simp add: getSize_eq reflowLines_frame reflowLines_occurrences)

text \<open>
  C8. \<open>setTextBubble\<close> replaces the text, the bubble type and the direction, sets the
  layout-dirty and the texture-dirty flag and emits the "visual changed" notification
  once; it leaves the measurement cache, the style, the canvas and the texture as they
  were.
\<close>

theorem setTextBubble_effects:
  "skinText (setTextBubble type txt left s) = Some txt
   \<and> bubbleType (setTextBubble type txt left s) = type
   \<and> pointsLeft (setTextBubble type txt left s) = left
   \<and> textDirty (setTextBubble type txt left s)
   \<and> textureDirty (setTextBubble type txt left s)
   \<and> trace (setTextBubble type txt left s) = trace s @ [WasAltered]
   \<and> cache (setTextBubble type txt left s) = cache s
   \<and> style (setTextBubble type txt left s) = style s
   \<and> canvas (setTextBubble type txt left s) = canvas s
   \<and> texture (setTextBubble type txt left s) = texture s"
  by (simp add: setTextBubble_def emitWasAltered_def emit_def)

lemma dispose_trace:
  "trace (dispose s) =
     trace s @ (case texture s of Some t \<Rightarrow> [DeleteTexture t] | None \<Rightarrow> []) @ [SuperDispose]"
  by (simp add: dispose_def superDispose_def emit_def Let_def split: option.split)

lemma dispose_texture: "texture (dispose s) = None"
  by (simp add: dispose_def superDispose_def emit_def Let_def split: option.split)

lemma dispose_deletes:
  "occurrences isDelete (trace (dispose s)) =
     occurrences isDelete (trace s) + (if texture s = None then 0 else 1)"
  by (simp add: dispose_trace occurrences_append occurrences_Cons occurrences_Nil
        split: option.split)

lemma dispose_pow_None:
  "texture s = None \<Longrightarrow>
   occurrences isDelete (trace ((dispose ^^ n) s)) = occurrences isDelete (trace s)"
proof (induction n arbitrary: s)
  case 0
  show ?case by simp
next
  case (Suc n)
  have "(dispose ^^ Suc n) s = (dispose ^^ n) (dispose s)"
    by (simp add: funpow_swap1)
  then show ?case
    using Suc.IH [of "dispose s"] Suc.prems by (simp add: dispose_texture dispose_deletes)
qed

text \<open>
  C10. \<open>dispose\<close> deletes the GPU texture only when the skin holds one, and then sets the
  texture field to null: a second \<open>dispose\<close> deletes nothing, and however often \<open>dispose\<close>
  is called, at most one texture deletion is issued.
\<close>

theorem dispose_deletes_once:
  "trace (dispose s) =
     trace s @ (case texture s of Some t \<Rightarrow> [DeleteTexture t] | None \<Rightarrow> []) @ [SuperDispose]
   \<and> texture (dispose s) = None
   \<and> occurrences isDelete (trace (dispose s)) =
       occurrences isDelete (trace s) + (if texture s = None then 0 else 1)
   \<and> occurrences isDelete (trace (dispose (dispose s))) =
       occurrences isDelete (trace (dispose s))
   \<and> occurrences isDelete (trace ((dispose ^^ n) s)) \<le> occurrences isDelete (trace s) + 1"
proof -
  have pow: "occurrences isDelete (trace ((dispose ^^ n) s)) \<le> occurrences isDelete (trace s) + 1"
  proof (cases n)
    case 0
    then show ?thesis by simp
  next
    case (Suc m)
    have "(dispose ^^ Suc m) s = (dispose ^^ m) (dispose s)"
      by (simp add: funpow_swap1)
    then show ?thesis
      using Suc dispose_pow_None [of "dispose s" m]
      by (simp add: dispose_texture dispose_deletes)
  qed
  have twice: "occurrences isDelete (trace (dispose (dispose s))) =
       occurrences isDelete (trace (dispose s))"
    using dispose_deletes [of "dispose s"] by (simp add: dispose_texture)
  show ?thesis
    using pow twice dispose_trace [of s] dispose_texture [of s] dispose_deletes [of s]
    by blast
qed

lemma requestedScale_Some:
  "requestedScale (Some (x, y)) = min 10 (max \<bar>x\<bar> \<bar>y\<bar> / 100)"
  by (simp add: requestedScale_def MAX_SCALE_def)

lemma requestedScale_values:
  "requestedScale None = 1"
  "requestedScale (Some (100, 100)) = 1"
  "requestedScale (Some (500, 1)) = 5"
  "requestedScale (Some (1, 500)) = 5"
  "requestedScale (Some (500, 500)) = 5"
  "requestedScale (Some (2000, 2000)) = 10"
  by (simp_all add: requestedScale_def MAX_SCALE_def)

lemma drawCmds_cong:
  "style a = style b \<Longrightarrow> textAreaSize a = textAreaSize b \<Longrightarrow> canvas a = canvas b \<Longrightarrow>
   pointsLeft a = pointsLeft b \<Longrightarrow> bubbleType a = bubbleType b \<Longrightarrow> lines a = lines b \<Longrightarrow>
   drawCmds scale a = drawCmds scale b"
  by (simp add: drawCmds_def)

lemma renderTextBubble_clean:
  assumes "canvasLive s" and "\<not> textDirty s"
  shows "renderTextBubble E scale s =
     Inr (s\<lparr>canvas := resized scale s,
            trace := trace s @ resizeEvents scale s
                       @ map Ctx (drawCmds scale (s\<lparr>canvas := resized scale s\<rparr>)),
            renderedScale := scale\<rparr>)"
proof -
  have d: "drawCmds scale
             (s\<lparr>canvas := resized scale s,
                trace := trace s @ resizeEvents scale s\<rparr>)
           = drawCmds scale (s\<lparr>canvas := resized scale s\<rparr>)"
    by (rule drawCmds_cong) simp_all
  show ?thesis
    using assms d
    by (simp add: renderTextBubble_def setCanvasWidth_def setCanvasHeight_def
          restyleCanvas_def emit_def Let_def resized_def resizeEvents_def)
qed

lemma renderTextBubble_live:
  assumes "canvasLive s"
  shows "renderTextBubble E scale s =
     Inr ((snd (getSize E s))
            \<lparr>canvas := resized scale (snd (getSize E s)),
             trace := trace (snd (getSize E s)) @ resizeEvents scale (snd (getSize E s))
                        @ map Ctx (drawCmds scale
                             ((snd (getSize E s))\<lparr>canvas := resized scale (snd (getSize E s))\<rparr>)),
             renderedScale := scale\<rparr>)"
proof (cases "textDirty s")
  case False
  then show ?thesis
    using assms by (simp add: renderTextBubble_clean getSize_eq)
next
  case True
  have r: "renderTextBubble E scale s = renderTextBubble E scale (reflowLines E s)"
    using assms True by (simp add: renderTextBubble_def reflowLines_frame)
  show ?thesis
    using assms True
    by (simp add: r renderTextBubble_clean reflowLines_frame getSize_eq)
qed


lemma getSize_frame:
  "canvasLive (snd (getSize E s)) = canvasLive s"
  "canvas (snd (getSize E s)) = canvas s"
  "style (snd (getSize E s)) = style s"
  "texture (snd (getSize E s)) = texture s"
  "textureDirty (snd (getSize E s)) = textureDirty s"
  "renderedScale (snd (getSize E s)) = renderedScale s"
  "glNext (snd (getSize E s)) = glNext s"
  "bubbleType (snd (getSize E s)) = bubbleType s"
  "pointsLeft (snd (getSize E s)) = pointsLeft s"
  "textDirty (snd (getSize E s)) = False"
  "fst (getSize E s) = skinSize (snd (getSize E s))"
  by (simp_all add: getSize_eq reflowLines_frame)

lemma getSize_occurrences:
  "occurrences isUpload (trace (snd (getSize E s))) = occurrences isUpload (trace s)"
  "occurrences isRaster (trace (snd (getSize E s))) = occurrences isRaster (trace s)"
  "occurrences isCreate (trace (snd (getSize E s))) = occurrences isCreate (trace s)"
  "occurrences isDelete (trace (snd (getSize E s))) = occurrences isDelete (trace s)"
  "occurrences (\<lambda>e. e = WasAltered) (trace (snd (getSize E s))) =
     occurrences (\<lambda>e. e = WasAltered) (trace s)"
  by (simp_all add: getSize_eq reflowLines_occurrences)

lemma occurrences_map_Ctx:
  "occurrences isUpload (map Ctx cs) = 0"
  "occurrences isCreate (map Ctx cs) = 0"
  "occurrences isDelete (map Ctx cs) = 0"
  "occurrences isWrap (map Ctx cs) = 0"
  "occurrences isMeasure (map Ctx cs) = 0"
  "occurrences (\<lambda>e. e = WasAltered) (map Ctx cs) = 0"
  by (induction cs) (simp_all add: occurrences_def)

lemma fillLines_no_raster: "occurrences isRaster (map Ctx (fillLines st n ls)) = 0"
  by (induction ls arbitrary: n) (simp_all add: occurrences_def)

lemma tailCmds_no_raster: "occurrences isRaster (map Ctx (tailCmds ty)) = 0"
  by (simp add: tailCmds_def occurrences_def)

lemma drawCmds_raster: "occurrences isRaster (map Ctx (drawCmds scale s)) = 1"
  by (simp add: drawCmds_def Let_def occurrences_append occurrences_Cons occurrences_Nil
        fillLines_no_raster tailCmds_no_raster)

lemma resizeEvents_occurrences:
  "occurrences isUpload (resizeEvents scale s) = 0"
  "occurrences isRaster (resizeEvents scale s) = 0"
  "occurrences isCreate (resizeEvents scale s) = 0"
  "occurrences isDelete (resizeEvents scale s) = 0"
  "occurrences (\<lambda>e. e = WasAltered) (resizeEvents scale s) = 0"
  by (simp_all add: resizeEvents_def occurrences_def)

lemma renderTextBubble_props:
  assumes "canvasLive s"
  shows "\<exists>r. renderTextBubble E scale s = Inr r
     \<and> renderedScale r = scale
     \<and> canvas r = resized scale (snd (getSize E s))
     \<and> skinSize r = fst (getSize E s)
     \<and> style r = style s
     \<and> canvasLive r
     \<and> \<not> textDirty r
     \<and> textureDirty r = textureDirty s
     \<and> texture r = texture s
     \<and> glNext r = glNext s
     \<and> trace r = trace (snd (getSize E s)) @ resizeEvents scale (snd (getSize E s))
                    @ map Ctx (drawCmds scale r)"
proof -
  let ?l = "snd (getSize E s)"
  let ?r = "?l\<lparr>canvas := resized scale ?l,
              trace := trace ?l @ resizeEvents scale ?l
                         @ map Ctx (drawCmds scale (?l\<lparr>canvas := resized scale ?l\<rparr>)),
              renderedScale := scale\<rparr>"
  have d: "drawCmds scale ?r = drawCmds scale (?l\<lparr>canvas := resized scale ?l\<rparr>)"
    by (rule drawCmds_cong) simp_all
  have "renderTextBubble E scale s = Inr ?r"
    by (rule renderTextBubble_live [OF assms])
  moreover have "trace ?r = trace ?l @ resizeEvents scale ?l @ map Ctx (drawCmds scale ?r)"
    unfolding d by simp
  moreover have "renderedScale ?r = scale" "canvas ?r = resized scale ?l"
    "skinSize ?r = fst (getSize E s)" "style ?r = style s" "canvasLive ?r"
    "\<not> textDirty ?r" "textureDirty ?r = textureDirty s" "texture ?r = texture s"
    "glNext ?r = glNext s"
    using assms by (simp_all add: getSize_frame)
  ultimately show ?thesis by blast
qed

lemma renderTextBubble_occurrences:
  assumes "renderTextBubble E scale s = Inr r" and "canvasLive s"
  shows "occurrences isRaster (trace r) = occurrences isRaster (trace s) + 1"
    and "occurrences isUpload (trace r) = occurrences isUpload (trace s)"
    and "occurrences isCreate (trace r) = occurrences isCreate (trace s)"
    and "occurrences isDelete (trace r) = occurrences isDelete (trace s)"
    and "occurrences (\<lambda>e. e = WasAltered) (trace r) = occurrences (\<lambda>e. e = WasAltered) (trace s)"
proof -
  have t: "trace r = trace (snd (getSize E s)) @ resizeEvents scale (snd (getSize E s))
                    @ map Ctx (drawCmds scale r)"
    using renderTextBubble_props [OF assms(2), of E scale] assms(1) by auto
  show "occurrences isRaster (trace r) = occurrences isRaster (trace s) + 1"
    and "occurrences isUpload (trace r) = occurrences isUpload (trace s)"
    and "occurrences isCreate (trace r) = occurrences isCreate (trace s)"
    and "occurrences isDelete (trace r) = occurrences isDelete (trace s)"
    and "occurrences (\<lambda>e. e = WasAltered) (trace r) = occurrences (\<lambda>e. e = WasAltered) (trace s)"
    by (simp_all add: t occurrences_append getSize_occurrences resizeEvents_occurrences
          drawCmds_raster occurrences_map_Ctx)
qed

lemma reflowLines_textureDirty:
  "reflowLines E (s\<lparr>textureDirty := b\<rparr>) = (reflowLines E s)\<lparr>textureDirty := b\<rparr>"
  by (cases "wrapText E (cache s) (cfont (canvas s)) (maxLineWidth (style s)) (skinText s)")
     (simp add: reflowLines_eq)

lemma getSize_textureDirty:
  "snd (getSize E (s\<lparr>textureDirty := b\<rparr>)) = (snd (getSize E s))\<lparr>textureDirty := b\<rparr>"
  by (simp add: getSize_eq reflowLines_textureDirty)

lemma renderTextBubble_textureDirty:
  assumes "canvasLive s" and "renderTextBubble E scale s = Inr r"
  shows "renderTextBubble E scale (s\<lparr>textureDirty := b\<rparr>) = Inr (r\<lparr>textureDirty := b\<rparr>)"
proof -
  let ?l = "snd (getSize E s)"
  have d: "drawCmds scale (?l\<lparr>textureDirty := b, canvas := resized scale ?l\<rparr>)
           = drawCmds scale (?l\<lparr>canvas := resized scale ?l\<rparr>)"
    by (rule drawCmds_cong) simp_all
  have c: "resized scale (?l\<lparr>textureDirty := b\<rparr>) = resized scale ?l"
    by (simp add: resized_def)
  have e: "resizeEvents scale (?l\<lparr>textureDirty := b\<rparr>) = resizeEvents scale ?l"
    by (simp add: resizeEvents_def)
  have "canvasLive (s\<lparr>textureDirty := b\<rparr>)" using assms(1) by simp
  from renderTextBubble_live [OF this, of E scale] renderTextBubble_live [OF assms(1), of E scale]
  show ?thesis
    using assms(2) by (simp add: getSize_textureDirty c e d)
qed

lemma occurs_before_iff:
  assumes "a \<noteq> b"
  shows "occurs_before a b xs = (\<exists>i j. i < j \<and> j < length xs \<and> xs ! i = a \<and> xs ! j = b)"
proof (induction xs)
  case Nil
  show ?case by (simp add: occurs_before_def)
next
  case (Cons x xs)
  show ?case
  proof (cases "x = a")
    case True
    have "occurs_before a b (x # xs) = (b \<in> set xs)"
      using True assms by (auto simp: occurs_before_def)
    also have "\<dots> = (\<exists>j. j < length xs \<and> xs ! j = b)"
      by (auto simp: in_set_conv_nth)
    also have "\<dots> = (\<exists>i j. i < j \<and> j < length (x # xs) \<and> (x # xs) ! i = a \<and> (x # xs) ! j = b)"
    proof
      assume "\<exists>j. j < length xs \<and> xs ! j = b"
      then obtain j where "j < length xs" "xs ! j = b" by blast
      then have "0 < Suc j \<and> Suc j < length (x # xs) \<and> (x # xs) ! 0 = a \<and> (x # xs) ! Suc j = b"
        using True by simp
      then show "\<exists>i j. i < j \<and> j < length (x # xs) \<and> (x # xs) ! i = a \<and> (x # xs) ! j = b"
        by blast
    next
      assume "\<exists>i j. i < j \<and> j < length (x # xs) \<and> (x # xs) ! i = a \<and> (x # xs) ! j = b"
      then obtain i j where ij: "i < j" "j < length (x # xs)" "(x # xs) ! j = b" by blast
      then obtain k where k: "j = Suc k" by (cases j) auto
      then have "k < length xs \<and> xs ! k = b" using ij by simp
      then show "\<exists>j. j < length xs \<and> xs ! j = b" by blast
    qed
    finally show ?thesis .
  next
    case False
    have "occurs_before a b (x # xs) = occurs_before a b xs"
      using False by (simp add: occurs_before_def)
    also have "\<dots> = (\<exists>i j. i < j \<and> j < length xs \<and> xs ! i = a \<and> xs ! j = b)"
      by (rule Cons.IH)
    also have "\<dots> = (\<exists>i j. i < j \<and> j < length (x # xs) \<and> (x # xs) ! i = a \<and> (x # xs) ! j = b)"
    proof
      assume "\<exists>i j. i < j \<and> j < length xs \<and> xs ! i = a \<and> xs ! j = b"
      then obtain i j where "i < j" "j < length xs" "xs ! i = a" "xs ! j = b" by blast
      then have "Suc i < Suc j \<and> Suc j < length (x # xs) \<and> (x # xs) ! Suc i = a
                 \<and> (x # xs) ! Suc j = b"
        by simp
      then show "\<exists>i j. i < j \<and> j < length (x # xs) \<and> (x # xs) ! i = a \<and> (x # xs) ! j = b"
        by blast
    next
      assume "\<exists>i j. i < j \<and> j < length (x # xs) \<and> (x # xs) ! i = a \<and> (x # xs) ! j = b"
      then obtain i j where ij: "i < j" "j < length (x # xs)" "(x # xs) ! i = a" "(x # xs) ! j = b"
        by blast
      obtain i' where i': "i = Suc i'" using ij(3) False by (cases i) auto
      obtain j' where j': "j = Suc j'" using ij(1) by (cases j) auto
      have "i' < j' \<and> j' < length xs \<and> xs ! i' = a \<and> xs ! j' = b"
        using ij i' j' by simp
      then show "\<exists>i j. i < j \<and> j < length xs \<and> xs ! i = a \<and> xs ! j = b" by blast
    qed
    finally show ?thesis .
  qed
qed

lemma occurs_before_split:
  assumes "xs = pre @ a # b # post" and "a \<notin> set pre" and "b \<notin> set pre" and "a \<notin> set post"
    and "a \<noteq> b"
  shows "occurs_before a b xs" and "\<not> occurs_before b a xs"
proof -
  have "dropWhile (\<lambda>x. x \<noteq> a) (pre @ a # b # post) = dropWhile (\<lambda>x. x \<noteq> a) (a # b # post)"
    by (rule dropWhile_append2) (use assms(2) in auto)
  then have 1: "dropWhile (\<lambda>x. x \<noteq> a) xs = a # b # post"
    using assms(1) by simp
  have "dropWhile (\<lambda>x. x \<noteq> b) (pre @ a # b # post) = dropWhile (\<lambda>x. x \<noteq> b) (a # b # post)"
    by (rule dropWhile_append2) (use assms(3) in auto)
  then have 2: "dropWhile (\<lambda>x. x \<noteq> b) xs = b # post"
    using assms(1,5) by simp
  show "occurs_before a b xs" by (simp add: occurs_before_def 1)
  show "\<not> occurs_before b a xs" using assms(4,5) by (simp add: occurs_before_def 2)
qed

lemma fillLines_no_path_paint:
  "Stroke \<notin> set (fillLines st n ls)" "Fill \<notin> set (fillLines st n ls)"
  by (induction ls arbitrary: n) simp_all

lemma tailCmds_no_path_paint:
  "Stroke \<notin> set (tailCmds ty)" "Fill \<notin> set (tailCmds ty)"
  by (simp_all add: tailCmds_def)

lemma drawCmds_split:
  "\<exists>pre post. drawCmds scale s =
      pre @ [SetFillStyle (bubbleFill (style s)), SetStrokeStyle (bubbleStroke (style s)),
             SetLineWidth (strokeWidth (style s)), Stroke, Fill] @ post
     \<and> Stroke \<notin> set pre \<and> Fill \<notin> set pre \<and> Stroke \<notin> set post \<and> Fill \<notin> set post"
proof -
  let ?st = "style s"
  let ?pw = "fst (textAreaSize s)"
  let ?ph = "snd (textAreaSize s)"
  let ?pre = "[SetTransform 1 0 0 1 0 0,
          ClearRect 0 0 (real_of_int (cwidth (canvas s))) (real_of_int (cheight (canvas s))),
          Scale scale scale,
          Translate (strokeWidth ?st * (1 / 2)) (strokeWidth ?st * (1 / 2)),
          Save]
         @ (if pointsLeft s then [Scale (-1) 1, Translate (- ?pw) 0] else [])
         @ [BeginPath,
            MoveTo (cornerRadius ?st) ?ph,
            ArcTo 0 ?ph 0 (?ph - cornerRadius ?st) (cornerRadius ?st),
            ArcTo 0 0 ?pw 0 (cornerRadius ?st),
            ArcTo ?pw 0 ?pw ?ph (cornerRadius ?st),
            ArcTo ?pw ?ph (?pw - cornerRadius ?st) ?ph (cornerRadius ?st),
            Save,
            Translate (?pw - cornerRadius ?st) ?ph]
         @ tailCmds (bubbleType s)
         @ [Restore]"
  let ?post = "[Restore, SetFillStyle (textFill ?st)] @ fillLines ?st 0 (lines s)"
  have "drawCmds scale s =
      ?pre @ [SetFillStyle (bubbleFill (style s)), SetStrokeStyle (bubbleStroke (style s)),
             SetLineWidth (strokeWidth (style s)), Stroke, Fill] @ ?post"
    by (simp add: drawCmds_def Let_def)
  moreover have "Stroke \<notin> set ?pre" "Fill \<notin> set ?pre"
    by (simp_all add: tailCmds_no_path_paint)
  moreover have "Stroke \<notin> set ?post" "Fill \<notin> set ?post"
    by (simp_all add: fillLines_no_path_paint)
  ultimately show ?thesis by blast
qed

lemma getSize_trace:
  "\<exists>x. trace (snd (getSize E s)) = trace s @ x \<and> Ctx Stroke \<notin> set x \<and> Ctx Fill \<notin> set x"
proof (cases "textDirty s")
  case False
  then show ?thesis by (simp add: getSize_eq)
next
  case True
  have "Ctx Stroke \<notin> set (map MeasureText ls)" "Ctx Fill \<notin> set (map MeasureText ls)" for ls
    by auto
  then show ?thesis
    using True by (simp add: getSize_eq reflowLines_trace)
qed

lemma renderEvents_split:
  assumes "canvasLive s"
  shows "\<exists>pre post. renderEvents E scale s =
      pre @ [Ctx (SetFillStyle (bubbleFill (style s))), Ctx (SetStrokeStyle (bubbleStroke (style s))),
             Ctx (SetLineWidth (strokeWidth (style s))), Ctx Stroke, Ctx Fill] @ post
     \<and> Ctx Stroke \<notin> set pre \<and> Ctx Fill \<notin> set pre
     \<and> Ctx Stroke \<notin> set post \<and> Ctx Fill \<notin> set post"
proof -
  obtain r where r: "renderTextBubble E scale s = Inr r" "style r = style s"
    "trace r = trace (snd (getSize E s)) @ resizeEvents scale (snd (getSize E s))
                 @ map Ctx (drawCmds scale r)"
    using renderTextBubble_props [OF assms, of E scale] by blast
  obtain x where x: "trace (snd (getSize E s)) = trace s @ x"
    "Ctx Stroke \<notin> set x" "Ctx Fill \<notin> set x"
    using getSize_trace [of E s] by blast
  obtain pre post where d: "drawCmds scale r =
      pre @ [SetFillStyle (bubbleFill (style r)), SetStrokeStyle (bubbleStroke (style r)),
             SetLineWidth (strokeWidth (style r)), Stroke, Fill] @ post"
    "Stroke \<notin> set pre" "Fill \<notin> set pre" "Stroke \<notin> set post" "Fill \<notin> set post"
    using drawCmds_split [of scale r] by blast
  let ?pre = "x @ resizeEvents scale (snd (getSize E s)) @ map Ctx pre"
  let ?post = "map Ctx post"
  have "renderEvents E scale s =
      ?pre @ [Ctx (SetFillStyle (bubbleFill (style s))), Ctx (SetStrokeStyle (bubbleStroke (style s))),
             Ctx (SetLineWidth (strokeWidth (style s))), Ctx Stroke, Ctx Fill] @ ?post"
    by (simp add: renderEvents_def r x d)
  moreover have "Ctx Stroke \<notin> set ?pre" "Ctx Fill \<notin> set ?pre"
    using x d by (auto simp: resizeEvents_def)
  moreover have "Ctx Stroke \<notin> set ?post" "Ctx Fill \<notin> set ?post"
    using d by auto
  ultimately show ?thesis by blast
qed

text \<open>
  C7 (as the code has it). In \<open>_renderTextBubble\<close>, once the path of the body and the tail
  is built, the fill style, the stroke style and the line width are set, and the path is
  stroked with \<open>bubbleStroke\<close> at \<open>strokeWidth\<close> and then filled with \<open>bubbleFill\<close>: the
  one \<open>stroke\<close> call of a run comes directly before its one \<open>fill\<close> call, so that the
  inner half of the stroke lies under the fill.
\<close>

theorem stroke_before_fill:
  assumes "canvasLive s"
  shows "occurs_before (Ctx Stroke) (Ctx Fill) (renderEvents E scale s)
     \<and> \<not> occurs_before (Ctx Fill) (Ctx Stroke) (renderEvents E scale s)
     \<and> (\<exists>pre post. renderEvents E scale s =
          pre @ [Ctx (SetFillStyle (bubbleFill (style s))),
                 Ctx (SetStrokeStyle (bubbleStroke (style s))),
                 Ctx (SetLineWidth (strokeWidth (style s))), Ctx Stroke, Ctx Fill] @ post
         \<and> Ctx Stroke \<notin> set pre \<and> Ctx Fill \<notin> set pre
         \<and> Ctx Stroke \<notin> set post \<and> Ctx Fill \<notin> set post)"
proof -
  obtain pre post where p: "renderEvents E scale s =
      pre @ [Ctx (SetFillStyle (bubbleFill (style s))), Ctx (SetStrokeStyle (bubbleStroke (style s))),
             Ctx (SetLineWidth (strokeWidth (style s))), Ctx Stroke, Ctx Fill] @ post"
    "Ctx Stroke \<notin> set pre" "Ctx Fill \<notin> set pre" "Ctx Stroke \<notin> set post" "Ctx Fill \<notin> set post"
    using renderEvents_split [OF assms, of E scale] by blast
  let ?pre = "pre @ [Ctx (SetFillStyle (bubbleFill (style s))),
                     Ctx (SetStrokeStyle (bubbleStroke (style s))),
                     Ctx (SetLineWidth (strokeWidth (style s)))]"
  have e: "renderEvents E scale s = ?pre @ Ctx Stroke # Ctx Fill # post"
    by (simp add: p(1))
  have n: "Ctx Stroke \<notin> set ?pre" "Ctx Fill \<notin> set ?pre"
    using p by simp_all
  have "occurs_before (Ctx Stroke) (Ctx Fill) (renderEvents E scale s)"
    by (rule occurs_before_split(1) [OF e n p(4)]) simp
  moreover have "\<not> occurs_before (Ctx Fill) (Ctx Stroke) (renderEvents E scale s)"
    by (rule occurs_before_split(2) [OF e n p(4)]) simp
  ultimately show ?thesis using p by blast
qed

lemma helloSkin_fields:
  "canvasLive helloSkin" "textDirty helloSkin" "textureDirty helloSkin"
  "style helloSkin = DEFAULT_BUBBLE_STYLE" "texture helloSkin = None"
  "trace helloSkin = [WasAltered]" "glNext helloSkin = 0"
  by (simp_all add: helloSkin_def setTextBubble_def emitWasAltered_def emit_def initSkin_def)

lemma helloSkin_wrap:
  "wrapText exampleEnv (cache helloSkin) (cfont (canvas helloSkin))
     (maxLineWidth (style helloSkin)) (skinText helloSkin) = ([''Hi''], Map.empty)"
  by (simp add: helloSkin_def setTextBubble_def emitWasAltered_def emit_def initSkin_def
        exampleEnv_def)

lemma helloSkin_reflow:
  "skinSize (reflowLines exampleEnv helloSkin) = (74, 52)"
  "textAreaSize (reflowLines exampleEnv helloSkin) = (70, 36)"
  "lines (reflowLines exampleEnv helloSkin) = [''Hi'']"
  "trace (reflowLines exampleEnv helloSkin) =
     [WasAltered, WrapText 170 (Some ''Hi''), MeasureText ''Hi'']"
  "bubbleType (reflowLines exampleEnv helloSkin) = ''say''"
  "pointsLeft (reflowLines exampleEnv helloSkin) = False"
  "canvas (reflowLines exampleEnv helloSkin) = \<lparr>cwidth = 300, cheight = 150, cfont = DefaultFont\<rparr>"
  "style (reflowLines exampleEnv helloSkin) = DEFAULT_BUBBLE_STYLE"
  unfolding reflowLines_eq [OF helloSkin_wrap]
  by (simp_all add: helloSkin_def setTextBubble_def emitWasAltered_def emit_def initSkin_def
        lineWidth_def exampleEnv_def DEFAULT_BUBBLE_STYLE_def)

lemma helloSkin_size: "fst (getSize exampleEnv helloSkin) = (74, 52)"
  by (simp add: getSize_eq helloSkin_fields helloSkin_reflow)

lemma helloSkin_renderEvents:
  "renderEvents exampleEnv 1 helloSkin =
     [WrapText 170 (Some ''Hi''), MeasureText ''Hi'',
      CanvasWidth 74, CanvasHeight 52, Ctx (SetFont (Font 14 ''Helvetica'')),
      Ctx (SetTransform 1 0 0 1 0 0), Ctx (ClearRect 0 0 74 52), Ctx (Scale 1 1),
      Ctx (Translate 2 2), Ctx Save, Ctx BeginPath, Ctx (MoveTo 16 36),
      Ctx (ArcTo 0 36 0 20 16), Ctx (ArcTo 0 0 70 0 16), Ctx (ArcTo 70 0 70 36 16),
      Ctx (ArcTo 70 36 54 36 16), Ctx Save, Ctx (Translate 54 36),
      Ctx (BezierCurveTo 0 4 4 8 4 10), Ctx (ArcTo 4 12 2 12 2),
      Ctx (BezierCurveTo (-1) 12 (-11) 8 (-16) 0), Ctx ClosePath, Ctx Restore,
      Ctx (SetFillStyle ''white''), Ctx (SetStrokeStyle ''rgba(0, 0, 0, 0.15)''),
      Ctx (SetLineWidth 4), Ctx Stroke, Ctx Fill, Ctx Restore,
      Ctx (SetFillStyle ''#575E75''), Ctx (FillText ''Hi'' 10 (113 / 5))]"
  by (simp add: renderEvents_def renderTextBubble_live helloSkin_fields getSize_eq
        helloSkin_reflow
        DEFAULT_BUBBLE_STYLE_def resizeEvents_def resized_def drawCmds_def tailCmds_def)

text \<open>
  C7 as the specification states it (fill, then stroke) fails: in the run for a speech
  bubble saying "Hi" at scale 1, no \<open>stroke\<close> call follows the \<open>fill\<close> call.
\<close>

theorem fill_before_stroke_counterexample:
  "canvasLive helloSkin
   \<and> \<not> occurs_before (Ctx Fill) (Ctx Stroke) (renderEvents exampleEnv 1 helloSkin)"
  by (simp add: helloSkin_fields helloSkin_renderEvents occurs_before_def)

theorem stroke_before_fill_witness:
  "canvasLive helloSkin
   \<and> occurs_before (Ctx Stroke) (Ctx Fill) (renderEvents exampleEnv 1 helloSkin)"
  using stroke_before_fill [of helloSkin exampleEnv 1] by (simp add: helloSkin_fields)

text \<open>
  C9. On a skin that is not disposed, \<open>_renderTextBubble\<close> always rasterizes: it clears
  and redraws the surface once per call, and neither reads nor writes the texture-dirty
  flag. It first recomputes the layout when the layout-dirty flag is set, then resizes the
  canvas to the ceiling of the total width times the scale by the ceiling of the total
  height times the scale, re-applies the font, draws, and records the scale as
  \<open>renderedScale\<close>.
\<close>

theorem renderTextBubble_unconditional:
  assumes "canvasLive s"
  shows "\<exists>r. renderTextBubble E scale s = Inr r
     \<and> occurrences isRaster (trace r) = occurrences isRaster (trace s) + 1
     \<and> renderTextBubble E scale (s\<lparr>textureDirty := b\<rparr>) = Inr (r\<lparr>textureDirty := b\<rparr>)
     \<and> textureDirty r = textureDirty s
     \<and> snd (getSize E s) = (if textDirty s then reflowLines E s else s)
     \<and> skinSize r = fst (getSize E s)
     \<and> \<not> textDirty r
     \<and> cwidth (canvas r) = \<lceil>fst (skinSize r) * scale\<rceil>
     \<and> cheight (canvas r) = \<lceil>snd (skinSize r) * scale\<rceil>
     \<and> cfont (canvas r) = Font (fontSize (style r)) (font (style r))
     \<and> trace r =
         trace (snd (getSize E s))
         @ [CanvasWidth \<lceil>fst (skinSize r) * scale\<rceil>,
            CanvasHeight \<lceil>snd (skinSize r) * scale\<rceil>,
            Ctx (SetFont (Font (fontSize (style r)) (font (style r))))]
         @ map Ctx (drawCmds scale r)
     \<and> renderedScale r = scale"
proof -
  obtain r where r: "renderTextBubble E scale s = Inr r"
    "renderedScale r = scale"
    "canvas r = resized scale (snd (getSize E s))"
    "skinSize r = fst (getSize E s)"
    "style r = style s"
    "\<not> textDirty r"
    "textureDirty r = textureDirty s"
    "trace r = trace (snd (getSize E s)) @ resizeEvents scale (snd (getSize E s))
                 @ map Ctx (drawCmds scale r)"
    using renderTextBubble_props [OF assms, of E scale] by blast
  have sz: "skinSize (snd (getSize E s)) = skinSize r"
    using r(4) by (simp add: getSize_frame)
  have st: "style (snd (getSize E s)) = style r"
    using r(5) by (simp add: getSize_frame)
  have "occurrences isRaster (trace r) = occurrences isRaster (trace s) + 1"
    by (rule renderTextBubble_occurrences(1) [OF r(1) assms])
  moreover have "renderTextBubble E scale (s\<lparr>textureDirty := b\<rparr>) = Inr (r\<lparr>textureDirty := b\<rparr>)"
    by (rule renderTextBubble_textureDirty [OF assms r(1)])
  moreover have "snd (getSize E s) = (if textDirty s then reflowLines E s else s)"
    by (simp add: getSize_eq)
  moreover have "cwidth (canvas r) = \<lceil>fst (skinSize r) * scale\<rceil>"
    "cheight (canvas r) = \<lceil>snd (skinSize r) * scale\<rceil>"
    "cfont (canvas r) = Font (fontSize (style r)) (font (style r))"
    by (simp_all add: r(3) resized_def sz st)
  moreover have "trace r =
         trace (snd (getSize E s))
         @ [CanvasWidth \<lceil>fst (skinSize r) * scale\<rceil>,
            CanvasHeight \<lceil>snd (skinSize r) * scale\<rceil>,
            Ctx (SetFont (Font (fontSize (style r)) (font (style r))))]
         @ map Ctx (drawCmds scale r)"
    using r(8) by (simp add: resizeEvents_def sz st)
  ultimately show ?thesis
    using r(1,2,4,6,7) by blast
qed

theorem renderTextBubble_unconditional_witness:
  "canvasLive helloSkin
   \<and> (\<exists>r. renderTextBubble exampleEnv (3 / 10) helloSkin = Inr r
        \<and> skinSize r = (74, 52)
        \<and> cwidth (canvas r) = 23 \<and> cheight (canvas r) = 16
        \<and> cfont (canvas r) = Font 14 ''Helvetica''
        \<and> renderedScale r = 3 / 10)"
proof -
  obtain r where r: "renderTextBubble exampleEnv (3 / 10) helloSkin = Inr r"
    "skinSize r = fst (getSize exampleEnv helloSkin)"
    "cwidth (canvas r) = \<lceil>fst (skinSize r) * (3 / 10)\<rceil>"
    "cheight (canvas r) = \<lceil>snd (skinSize r) * (3 / 10)\<rceil>"
    "cfont (canvas r) = Font (fontSize (style r)) (font (style r))"
    "renderedScale r = 3 / 10"
    using renderTextBubble_unconditional [of helloSkin exampleEnv "3 / 10"] helloSkin_fields(1)
    by blast
  have st: "style r = DEFAULT_BUBBLE_STYLE"
    using renderTextBubble_props [OF helloSkin_fields(1), of exampleEnv "3 / 10"] r(1)
    by (auto simp: helloSkin_fields)
  have "skinSize r = (74, 52)" using r(2) by (simp add: helloSkin_size)
  moreover from this have "cwidth (canvas r) = 23" "cheight (canvas r) = 16"
    using r(3,4) by simp_all
  moreover have "cfont (canvas r) = Font 14 ''Helvetica''"
    using r(5) by (simp add: st DEFAULT_BUBBLE_STYLE_def)
  ultimately show ?thesis
    using r(1,6) helloSkin_fields(1) by blast
qed

lemma getTexture_skip:
  "\<not> needsRender sc s \<Longrightarrow> getTexture E sc s = Inr (texture s, s)"
  by (simp add: getTexture_def needsRender_def)

lemma surfaceEmpty_canvas:
  assumes "canvasLive s" and "renderTextBubble E scale s = Inr r"
  shows "surfaceEmpty E scale s = (cwidth (canvas r) = 0 \<or> cheight (canvas r) = 0)"
proof -
  have "canvas r = resized scale (snd (getSize E s))"
    using renderTextBubble_props [OF assms(1), of E scale] assms(2) by auto
  then show ?thesis
    by (simp add: surfaceEmpty_def resized_def getSize_frame(11))
qed

lemma getTexture_props:
  assumes "canvasLive s" and "\<not> (needsRender sc s \<and> surfaceEmpty E (requestedScale sc) s)"
  shows "\<exists>t s1. getTexture E sc s = Inr (t, s1)
     \<and> t = texture s1
     \<and> texture s1 = (if needsRender sc s
                       then (case texture s of Some h \<Rightarrow> Some h | None \<Rightarrow> Some (glNext s))
                       else texture s)
     \<and> canvasLive s1
     \<and> \<not> textureDirty s1
     \<and> renderedScale s1 = requestedScale sc
     \<and> style s1 = style s
     \<and> (if needsRender sc s then \<not> textDirty s1 \<and> skinSize s1 = fst (getSize E s) else s1 = s)
     \<and> occurrences isRaster (trace s1) =
         occurrences isRaster (trace s) + (if needsRender sc s then 1 else 0)
     \<and> occurrences isUpload (trace s1) =
         occurrences isUpload (trace s) + (if needsRender sc s then 1 else 0)
     \<and> occurrences isCreate (trace s1) =
         occurrences isCreate (trace s) + (if needsRender sc s \<and> texture s = None then 1 else 0)
     \<and> occurrences isDelete (trace s1) = occurrences isDelete (trace s)
     \<and> occurrences (\<lambda>e. e = WasAltered) (trace s1) = occurrences (\<lambda>e. e = WasAltered) (trace s)"
proof (cases "needsRender sc s")
  case False
  then have "getTexture E sc s = Inr (texture s, s)"
    by (rule getTexture_skip)
  moreover have "\<not> textureDirty s" "renderedScale s = requestedScale sc"
    using False by (simp_all add: needsRender_def)
  ultimately show ?thesis
    using False assms(1) by simp
next
  case True
  obtain r where r: "renderTextBubble E (requestedScale sc) s = Inr r"
    "renderedScale r = requestedScale sc" "style r = style s" "canvasLive r"
    "\<not> textDirty r" "texture r = texture s" "glNext r = glNext s"
    "skinSize r = fst (getSize E s)"
    using renderTextBubble_props [OF assms(1), of E "requestedScale sc"] by blast
  have dims: "cwidth (canvas r) \<noteq> 0" "cheight (canvas r) \<noteq> 0"
    using assms(2) True surfaceEmpty_canvas [OF assms(1) r(1)] by simp_all
  note o = renderTextBubble_occurrences [OF r(1) assms(1)]
  let ?s2 = "emit (GetImageData 0 0 (cwidth (canvas r)) (cheight (canvas r)))
               (r\<lparr>textureDirty := False\<rparr>)"
  let ?s3 = "if texture ?s2 = None then createTexture ?s2 else ?s2"
  let ?s4 = "setTexture (cwidth (canvas r), cheight (canvas r)) ?s3"
  have g: "getTexture E sc s = Inr (texture ?s4, ?s4)"
    using True r(1,4) dims
    by (simp add: getTexture_def needsRender_def getImageData_def Let_def)
  have "texture ?s4 = (case texture s of Some h \<Rightarrow> Some h | None \<Rightarrow> Some (glNext s))"
    by (simp add: setTexture_def createTexture_def emit_def r(6,7) split: option.split)
  moreover have "canvasLive ?s4" "\<not> textureDirty ?s4" "renderedScale ?s4 = requestedScale sc"
    "style ?s4 = style s" "\<not> textDirty ?s4" "skinSize ?s4 = fst (getSize E s)"
    using r(2,3,4,5,8) by (simp_all add: setTexture_def createTexture_def emit_def)
  moreover have "trace ?s4 =
      trace r @ [GetImageData 0 0 (cwidth (canvas r)) (cheight (canvas r))]
        @ (if texture s = None then [CreateTexture (glNext s)] else [])
        @ [SetTexture (texture ?s4) (cwidth (canvas r)) (cheight (canvas r))]"
    by (simp add: setTexture_def createTexture_def emit_def r(6,7))
  then have "occurrences isRaster (trace ?s4) = occurrences isRaster (trace s) + 1"
    "occurrences isUpload (trace ?s4) = occurrences isUpload (trace s) + 1"
    "occurrences isCreate (trace ?s4) =
       occurrences isCreate (trace s) + (if texture s = None then 1 else 0)"
    "occurrences isDelete (trace ?s4) = occurrences isDelete (trace s)"
    "occurrences (\<lambda>e. e = WasAltered) (trace ?s4) = occurrences (\<lambda>e. e = WasAltered) (trace s)"
    by (simp_all add: occurrences_append occurrences_Cons occurrences_Nil o)
  ultimately show ?thesis
    using True g by simp
qed

text \<open>
  On an empty surface the readback of \<open>getTexture\<close> throws: the skin is left rasterized,
  with the texture-dirty flag cleared and nothing uploaded, and the next call at that
  scale returns the texture field as it was.
\<close>

lemma getTexture_empty:
  assumes "canvasLive s" and "needsRender sc s" and "surfaceEmpty E (requestedScale sc) s"
  shows "\<exists>s1. getTexture E sc s = Inl (IndexSizeError, s1)
     \<and> \<not> textureDirty s1
     \<and> renderedScale s1 = requestedScale sc
     \<and> texture s1 = texture s
     \<and> getTexture E sc s1 = Inr (texture s, s1)
     \<and> occurrences isRaster (trace s1) = occurrences isRaster (trace s) + 1
     \<and> occurrences isUpload (trace s1) = occurrences isUpload (trace s)
     \<and> occurrences isCreate (trace s1) = occurrences isCreate (trace s)
     \<and> occurrences (\<lambda>e. e = WasAltered) (trace s1) = occurrences (\<lambda>e. e = WasAltered) (trace s)"
proof -
  obtain r where r: "renderTextBubble E (requestedScale sc) s = Inr r"
    "renderedScale r = requestedScale sc" "canvasLive r" "texture r = texture s"
    using renderTextBubble_props [OF assms(1), of E "requestedScale sc"] by blast
  have dims: "cwidth (canvas r) = 0 \<or> cheight (canvas r) = 0"
    using assms(3) surfaceEmpty_canvas [OF assms(1) r(1)] by simp
  note o = renderTextBubble_occurrences [OF r(1) assms(1)]
  let ?s1 = "emit (GetImageData 0 0 (cwidth (canvas r)) (cheight (canvas r)))
               (r\<lparr>textureDirty := False\<rparr>)"
  have g: "getTexture E sc s = Inl (IndexSizeError, ?s1)"
    using assms(2) r(1,3) dims
    by (simp add: getTexture_def needsRender_def getImageData_def Let_def)
  have "\<not> needsRender sc ?s1"
    by (simp add: needsRender_def emit_def r(2))
  then have "getTexture E sc ?s1 = Inr (texture s, ?s1)"
    using getTexture_skip [of sc ?s1 E] by (simp add: emit_def r(4))
  moreover have "\<not> textureDirty ?s1" "renderedScale ?s1 = requestedScale sc"
    "texture ?s1 = texture s"
    by (simp_all add: emit_def r(2,4))
  moreover have "occurrences isRaster (trace ?s1) = occurrences isRaster (trace s) + 1"
    "occurrences isUpload (trace ?s1) = occurrences isUpload (trace s)"
    "occurrences isCreate (trace ?s1) = occurrences isCreate (trace s)"
    "occurrences (\<lambda>e. e = WasAltered) (trace ?s1) = occurrences (\<lambda>e. e = WasAltered) (trace s)"
    by (simp_all add: emit_def occurrences_append occurrences_Cons occurrences_Nil o)
  ultimately show ?thesis
    using g by blast
qed

lemma getTexture_disposed:
  "\<not> canvasLive s \<Longrightarrow> stateAfter (getTexture E sc s) = s"
  by (simp add: getTexture_def renderTextBubble_def stateAfter_def)

lemma getTexture_after:
  "occurrences (\<lambda>e. e = WasAltered) (trace (stateAfter (getTexture E sc s))) =
     occurrences (\<lambda>e. e = WasAltered) (trace s)"
  "canvasLive s \<Longrightarrow> renderedScale (stateAfter (getTexture E sc s)) = requestedScale sc"
  "canvasLive s \<Longrightarrow>
     occurrences isRaster (trace (stateAfter (getTexture E sc s))) =
       occurrences isRaster (trace s) + (if needsRender sc s then 1 else 0)"
proof -
  have live: "occurrences (\<lambda>e. e = WasAltered) (trace (stateAfter (getTexture E sc s))) =
       occurrences (\<lambda>e. e = WasAltered) (trace s)
     \<and> renderedScale (stateAfter (getTexture E sc s)) = requestedScale sc
     \<and> occurrences isRaster (trace (stateAfter (getTexture E sc s))) =
         occurrences isRaster (trace s) + (if needsRender sc s then 1 else 0)"
    if l: "canvasLive s"
  proof (cases "needsRender sc s \<and> surfaceEmpty E (requestedScale sc) s")
    case True
    then show ?thesis
      using getTexture_empty [OF l, of sc E] by (auto simp: stateAfter_def)
  next
    case False
    then show ?thesis
      using getTexture_props [OF l False] by (auto simp: stateAfter_def)
  qed
  show "occurrences (\<lambda>e. e = WasAltered) (trace (stateAfter (getTexture E sc s))) =
     occurrences (\<lambda>e. e = WasAltered) (trace s)"
    using live getTexture_disposed [of s E sc] by (cases "canvasLive s") simp_all
  show "canvasLive s \<Longrightarrow> renderedScale (stateAfter (getTexture E sc s)) = requestedScale sc"
    using live by simp
  show "canvasLive s \<Longrightarrow>
     occurrences isRaster (trace (stateAfter (getTexture E sc s))) =
       occurrences isRaster (trace s) + (if needsRender sc s then 1 else 0)"
    using live by simp
qed

text \<open>
  With a positive stroke width and no negative length in the style, the surface of a
  skin whose layout is dirty is not empty at a positive scale.
\<close>

lemma surface_not_empty:
  assumes "textDirty s" and "0 < scale"
    and "0 \<le> minWidth (style s)" and "0 \<le> padding (style s)" and "0 < strokeWidth (style s)"
    and "0 \<le> lineHeight (style s)" and "0 \<le> tailHeight (style s)"
  shows "\<not> surfaceEmpty E scale s"
proof -
  obtain ls c where
    w: "wrapText E (cache s) (cfont (canvas s)) (maxLineWidth (style s)) (skinText s) = (ls, c)"
    by (cases "wrapText E (cache s) (cfont (canvas s)) (maxLineWidth (style s)) (skinText s)")
  let ?w = "fst (fst (getSize E s))"
  let ?h = "snd (fst (getSize E s))"
  have "0 \<le> lineHeight (style s) * real (length ls)"
    using assms(6) by simp
  then have "0 < ?w" "0 < ?h"
    using assms(1,3,4,5,7) by (simp_all add: getSize_eq reflowLines_eq [OF w] max_def)
  then have p: "0 < ?w * scale" "0 < ?h * scale"
    using assms(2) by simp_all
  have "\<lceil>?w * scale\<rceil> \<noteq> 0"
    using p(1) zero_less_ceiling [of "?w * scale"] by linarith
  moreover have "\<lceil>?h * scale\<rceil> \<noteq> 0"
    using p(2) zero_less_ceiling [of "?h * scale"] by linarith
  ultimately show ?thesis
    unfolding surfaceEmpty_def by blast
qed

lemma getTexture_zero_scale:
  "\<exists>s1. getTexture exampleEnv (Some (0, 0)) helloSkin = Inl (IndexSizeError, s1)
     \<and> \<not> textureDirty s1
     \<and> getTexture exampleEnv (Some (0, 0)) s1 = Inr (None, s1)"
proof -
  have z: "requestedScale (Some (0, 0)) = 0"
    by (simp add: requestedScale_def MAX_SCALE_def)
  have "needsRender (Some (0, 0)) helloSkin"
    by (simp add: needsRender_def helloSkin_fields)
  moreover have "surfaceEmpty exampleEnv (requestedScale (Some (0, 0))) helloSkin"
    by (simp add: z surfaceEmpty_def)
  ultimately show ?thesis
    using getTexture_empty [OF helloSkin_fields(1), of "Some (0, 0)" exampleEnv]
    by (auto simp: helloSkin_fields)
qed

lemma helloSkin_surface: "0 < scale \<Longrightarrow> \<not> surfaceEmpty exampleEnv scale helloSkin"
  by (rule surface_not_empty)
     (simp_all add: helloSkin_fields DEFAULT_BUBBLE_STYLE_def)

lemma shownSkin_props:
  "getTexture exampleEnv None helloSkin = Inr (Some 0, shownSkin)"
  "canvasLive shownSkin" "\<not> textureDirty shownSkin" "renderedScale shownSkin = 1"
  "texture shownSkin = Some 0" "style shownSkin = DEFAULT_BUBBLE_STYLE"
  "occurrences isRaster (trace shownSkin) = 1"
  "\<not> textDirty shownSkin" "skinSize shownSkin = (74, 52)"
proof -
  have n: "needsRender None helloSkin"
    by (simp add: needsRender_def helloSkin_fields)
  have ne: "\<not> (needsRender None helloSkin \<and> surfaceEmpty exampleEnv (requestedScale None) helloSkin)"
    using helloSkin_surface [of 1] by (simp add: requestedScale_values)
  obtain t s1 where g: "getTexture exampleEnv None helloSkin = Inr (t, s1)" "t = texture s1"
    "texture s1 = (if needsRender None helloSkin
                       then (case texture helloSkin of Some h \<Rightarrow> Some h | None \<Rightarrow> Some (glNext helloSkin))
                       else texture helloSkin)"
    "canvasLive s1" "\<not> textureDirty s1" "renderedScale s1 = requestedScale None"
    "style s1 = style helloSkin"
    "occurrences isRaster (trace s1) =
         occurrences isRaster (trace helloSkin) + (if needsRender None helloSkin then 1 else 0)"
    "if needsRender None helloSkin
     then \<not> textDirty s1 \<and> skinSize s1 = fst (getSize exampleEnv helloSkin) else s1 = helloSkin"
    using getTexture_props [OF helloSkin_fields(1) ne] by blast
  have s: "shownSkin = s1"
    by (simp add: shownSkin_def g(1))
  have t: "texture s1 = Some 0"
    using g(3) n by (simp add: helloSkin_fields)
  show "getTexture exampleEnv None helloSkin = Inr (Some 0, shownSkin)"
    using g(1,2) t s by simp
  show "canvasLive shownSkin" "\<not> textureDirty shownSkin" "renderedScale shownSkin = 1"
    "texture shownSkin = Some 0" "style shownSkin = DEFAULT_BUBBLE_STYLE"
    using g(4,5,6,7) t s by (simp_all add: requestedScale_values helloSkin_fields)
  show "occurrences isRaster (trace shownSkin) = 1"
    using g(8) n s by (simp add: helloSkin_fields occurrences_def)
  show "\<not> textDirty shownSkin" "skinSize shownSkin = (74, 52)"
    using g(9) n s by (simp_all add: helloSkin_size)
qed







text \<open>
  C2. For a scale vector \<open>(x, y)\<close> the requested scale of \<open>getTexture\<close> is
  \<open>min(10, max(|x|, |y|) / 100)\<close>; without a vector it is that of \<open>(100, 100)\<close>. The
  vectors \<open>(500, 1)\<close>, \<open>(1, 500)\<close> and \<open>(500, 500)\<close> give 5, and \<open>(2000, 2000)\<close> gives 10.
  A call of \<open>getTexture\<close> on a skin that is not disposed leaves the skin rendered at that
  scale, and returns when the surface at that scale is not empty.
\<close>

theorem requestedScale_quantized:
  "requestedScale (Some (x, y)) = min 10 (max \<bar>x\<bar> \<bar>y\<bar> / 100)
   \<and> requestedScale None = requestedScale (Some (100, 100))
   \<and> requestedScale (Some (500, 1)) = 5
   \<and> requestedScale (Some (1, 500)) = 5
   \<and> requestedScale (Some (500, 500)) = 5
   \<and> requestedScale (Some (2000, 2000)) = 10
   \<and> (canvasLive s \<longrightarrow>
        renderedScale (stateAfter (getTexture E sc s)) = requestedScale sc)
   \<and> (canvasLive s \<and> \<not> surfaceEmpty E (requestedScale sc) s \<longrightarrow>
        (\<exists>t s1. getTexture E sc s = Inr (t, s1) \<and> renderedScale s1 = requestedScale sc))"
proof -
  have "\<exists>t s1. getTexture E sc s = Inr (t, s1) \<and> renderedScale s1 = requestedScale sc"
    if "canvasLive s" and "\<not> surfaceEmpty E (requestedScale sc) s"
  proof -
    have "\<not> (needsRender sc s \<and> surfaceEmpty E (requestedScale sc) s)"
      using that(2) by simp
    from getTexture_props [OF that(1) this] show ?thesis by blast
  qed
  then show ?thesis
    by (simp add: requestedScale_Some requestedScale_values getTexture_after)
qed

theorem requestedScale_quantized_witness:
  "canvasLive helloSkin
   \<and> \<not> surfaceEmpty exampleEnv (requestedScale (Some (2000, 2000))) helloSkin
   \<and> renderedScale (stateAfter (getTexture exampleEnv (Some (2000, 2000)) helloSkin)) = 10
   \<and> (\<exists>t s1. getTexture exampleEnv (Some (2000, 2000)) helloSkin = Inr (t, s1)
        \<and> renderedScale s1 = 10)"
  using requestedScale_quantized [of 0 0 helloSkin exampleEnv "Some (2000, 2000)"]
    helloSkin_surface [of 10]
  by (simp add: helloSkin_fields requestedScale_values)

lemma setStyle_live:
  assumes "canvasLive s"
  shows "setStyle p s =
     Inr (s\<lparr>style := assign (style s) p,
            cache := Map.empty,
            canvas := (canvas s)\<lparr>cfont := Font (fontSize (assign (style s) p))
                                            (font (assign (style s) p))\<rparr>,
            textDirty := True,
            textureDirty := True,
            trace := trace s @ [ClearCache,
                                Ctx (SetFont (Font (fontSize (assign (style s) p))
                                                   (font (assign (style s) p)))),
                                WasAltered]\<rparr>)"
  using assms
  by (simp add: setStyle_def clearCache_def restyleCanvas_def emitWasAltered_def emit_def)

text \<open>
  C5. On a skin that is not disposed, \<open>setStyle\<close> replaces the style with the merge of the
  argument over the current style (a key of the argument wins, a missing key keeps its
  old value), empties the measurement cache, re-applies the font to the context, sets the
  layout-dirty and the texture-dirty flag and emits the notification. A \<open>getTexture\<close>
  after it rasterizes again, at whatever scale, and uploads the result when the surface
  is not empty.
\<close>

theorem setStyle_effects:
  assumes "canvasLive s"
  shows "\<exists>s1. setStyle p s = Inr s1
     \<and> style s1 = assign (style s) p
     \<and> maxLineWidth (style s1) = (case p_maxLineWidth p of Some v \<Rightarrow> v | None \<Rightarrow> maxLineWidth (style s))
     \<and> minWidth (style s1) = (case p_minWidth p of Some v \<Rightarrow> v | None \<Rightarrow> minWidth (style s))
     \<and> strokeWidth (style s1) = (case p_strokeWidth p of Some v \<Rightarrow> v | None \<Rightarrow> strokeWidth (style s))
     \<and> padding (style s1) = (case p_padding p of Some v \<Rightarrow> v | None \<Rightarrow> padding (style s))
     \<and> cornerRadius (style s1) = (case p_cornerRadius p of Some v \<Rightarrow> v | None \<Rightarrow> cornerRadius (style s))
     \<and> tailHeight (style s1) = (case p_tailHeight p of Some v \<Rightarrow> v | None \<Rightarrow> tailHeight (style s))
     \<and> font (style s1) = (case p_font p of Some v \<Rightarrow> v | None \<Rightarrow> font (style s))
     \<and> fontSize (style s1) = (case p_fontSize p of Some v \<Rightarrow> v | None \<Rightarrow> fontSize (style s))
     \<and> fontHeightRatio (style s1) =
         (case p_fontHeightRatio p of Some v \<Rightarrow> v | None \<Rightarrow> fontHeightRatio (style s))
     \<and> lineHeight (style s1) = (case p_lineHeight p of Some v \<Rightarrow> v | None \<Rightarrow> lineHeight (style s))
     \<and> bubbleFill (style s1) = (case p_bubbleFill p of Some v \<Rightarrow> v | None \<Rightarrow> bubbleFill (style s))
     \<and> bubbleStroke (style s1) = (case p_bubbleStroke p of Some v \<Rightarrow> v | None \<Rightarrow> bubbleStroke (style s))
     \<and> textFill (style s1) = (case p_textFill p of Some v \<Rightarrow> v | None \<Rightarrow> textFill (style s))
     \<and> cache s1 = Map.empty
     \<and> cfont (canvas s1) = Font (fontSize (style s1)) (font (style s1))
     \<and> textDirty s1 \<and> textureDirty s1
     \<and> trace s1 = trace s @ [ClearCache,
                               Ctx (SetFont (Font (fontSize (style s1)) (font (style s1)))),
                               WasAltered]
     \<and> (\<forall>sc. occurrences isRaster (trace (stateAfter (getTexture E sc s1))) =
                occurrences isRaster (trace s1) + 1)
     \<and> (\<forall>sc. \<not> surfaceEmpty E (requestedScale sc) s1 \<longrightarrow>
            (\<exists>t s2. getTexture E sc s1 = Inr (t, s2)
              \<and> occurrences isRaster (trace s2) = occurrences isRaster (trace s1) + 1
              \<and> occurrences isUpload (trace s2) = occurrences isUpload (trace s1) + 1))"
proof -
  let ?s1 = "s\<lparr>style := assign (style s) p,
            cache := Map.empty,
            canvas := (canvas s)\<lparr>cfont := Font (fontSize (assign (style s) p))
                                            (font (assign (style s) p))\<rparr>,
            textDirty := True,
            textureDirty := True,
            trace := trace s @ [ClearCache,
                                Ctx (SetFont (Font (fontSize (assign (style s) p))
                                                   (font (assign (style s) p)))),
                                WasAltered]\<rparr>"
  have e: "setStyle p s = Inr ?s1"
    by (rule setStyle_live [OF assms])
  have live: "canvasLive ?s1" using assms by simp
  have n: "needsRender sc ?s1" for sc by (simp add: needsRender_def)
  have raster: "occurrences isRaster (trace (stateAfter (getTexture E sc ?s1))) =
                occurrences isRaster (trace ?s1) + 1" for sc
    using getTexture_after(3) [OF live, of E sc] n [of sc] by simp
  have again: "\<exists>t s2. getTexture E sc ?s1 = Inr (t, s2)
            \<and> occurrences isRaster (trace s2) = occurrences isRaster (trace ?s1) + 1
            \<and> occurrences isUpload (trace s2) = occurrences isUpload (trace ?s1) + 1"
    if "\<not> surfaceEmpty E (requestedScale sc) ?s1" for sc
  proof -
    have "\<not> (needsRender sc ?s1 \<and> surfaceEmpty E (requestedScale sc) ?s1)"
      using that by simp
    from getTexture_props [OF live this] n [of sc] show ?thesis by auto
  qed
  have fields: "style ?s1 = assign (style s) p" "cache ?s1 = Map.empty"
    "cfont (canvas ?s1) = Font (fontSize (style ?s1)) (font (style ?s1))"
    "textDirty ?s1" "textureDirty ?s1"
    "trace ?s1 = trace s @ [ClearCache,
                               Ctx (SetFont (Font (fontSize (style ?s1)) (font (style ?s1)))),
                               WasAltered]"
    by simp_all
  have keys:
    "maxLineWidth (style ?s1) = (case p_maxLineWidth p of Some v \<Rightarrow> v | None \<Rightarrow> maxLineWidth (style s))"
    "minWidth (style ?s1) = (case p_minWidth p of Some v \<Rightarrow> v | None \<Rightarrow> minWidth (style s))"
    "strokeWidth (style ?s1) = (case p_strokeWidth p of Some v \<Rightarrow> v | None \<Rightarrow> strokeWidth (style s))"
    "padding (style ?s1) = (case p_padding p of Some v \<Rightarrow> v | None \<Rightarrow> padding (style s))"
    "cornerRadius (style ?s1) = (case p_cornerRadius p of Some v \<Rightarrow> v | None \<Rightarrow> cornerRadius (style s))"
    "tailHeight (style ?s1) = (case p_tailHeight p of Some v \<Rightarrow> v | None \<Rightarrow> tailHeight (style s))"
    "font (style ?s1) = (case p_font p of Some v \<Rightarrow> v | None \<Rightarrow> font (style s))"
    "fontSize (style ?s1) = (case p_fontSize p of Some v \<Rightarrow> v | None \<Rightarrow> fontSize (style s))"
    "fontHeightRatio (style ?s1) =
         (case p_fontHeightRatio p of Some v \<Rightarrow> v | None \<Rightarrow> fontHeightRatio (style s))"
    "lineHeight (style ?s1) = (case p_lineHeight p of Some v \<Rightarrow> v | None \<Rightarrow> lineHeight (style s))"
    "bubbleFill (style ?s1) = (case p_bubbleFill p of Some v \<Rightarrow> v | None \<Rightarrow> bubbleFill (style s))"
    "bubbleStroke (style ?s1) = (case p_bubbleStroke p of Some v \<Rightarrow> v | None \<Rightarrow> bubbleStroke (style s))"
    "textFill (style ?s1) = (case p_textFill p of Some v \<Rightarrow> v | None \<Rightarrow> textFill (style s))"
    by (simp_all add: assign_def)
  show ?thesis
    apply (rule exI [of _ ?s1])
    using e fields keys raster again by blast
qed

theorem setStyle_effects_witness:
  "canvasLive shownSkin
   \<and> (\<exists>s1. setStyle bigFont shownSkin = Inr s1
        \<and> fontSize (style s1) = 30 \<and> font (style s1) = ''Helvetica''
        \<and> lineHeight (style s1) = 16
        \<and> cfont (canvas s1) = Font 30 ''Helvetica''
        \<and> \<not> surfaceEmpty exampleEnv (requestedScale None) s1
        \<and> occurrences isRaster (trace (stateAfter (getTexture exampleEnv None s1))) = 2
        \<and> (\<exists>t s2. getTexture exampleEnv None s1 = Inr (t, s2)
              \<and> occurrences isRaster (trace s2) = 2))"
proof -
  obtain s1 where s1: "setStyle bigFont shownSkin = Inr s1"
    "style s1 = assign (style shownSkin) bigFont"
    "cfont (canvas s1) = Font (fontSize (style s1)) (font (style s1))"
    "trace s1 = trace shownSkin @ [ClearCache,
                               Ctx (SetFont (Font (fontSize (style s1)) (font (style s1)))),
                               WasAltered]"
    "textDirty s1"
    "\<forall>sc. occurrences isRaster (trace (stateAfter (getTexture exampleEnv sc s1))) =
                occurrences isRaster (trace s1) + 1"
    "\<forall>sc. \<not> surfaceEmpty exampleEnv (requestedScale sc) s1 \<longrightarrow>
            (\<exists>t s2. getTexture exampleEnv sc s1 = Inr (t, s2)
              \<and> occurrences isRaster (trace s2) = occurrences isRaster (trace s1) + 1
              \<and> occurrences isUpload (trace s2) = occurrences isUpload (trace s1) + 1)"
    using setStyle_effects [OF shownSkin_props(2), of bigFont exampleEnv] by blast
  have st: "style s1 =
     \<lparr>maxLineWidth = 170, minWidth = 50, strokeWidth = 4, padding = 10,
      cornerRadius = 16, tailHeight = 12, font = ''Helvetica'', fontSize = 30,
      fontHeightRatio = 9 / 10, lineHeight = 16, bubbleFill = ''white'',
      bubbleStroke = ''rgba(0, 0, 0, 0.15)'', textFill = ''#575E75''\<rparr>"
    by (simp add: s1(2) assign_def bigFont_def shownSkin_props DEFAULT_BUBBLE_STYLE_def)
  have f: "fontSize (style s1) = 30" "font (style s1) = ''Helvetica''" "lineHeight (style s1) = 16"
    by (simp_all add: st)
  have ne: "\<not> surfaceEmpty exampleEnv (requestedScale None) s1"
    unfolding requestedScale_values
    by (rule surface_not_empty) (simp_all add: s1(5) st)
  have r: "occurrences isRaster (trace s1) = 1"
    by (simp add: s1(4) occurrences_append occurrences_Cons occurrences_Nil shownSkin_props)
  have a: "occurrences isRaster (trace (stateAfter (getTexture exampleEnv None s1))) = 2"
    using s1(6) r by simp
  obtain t s2 where "getTexture exampleEnv None s1 = Inr (t, s2)"
    "occurrences isRaster (trace s2) = occurrences isRaster (trace s1) + 1"
    using s1(7) ne by blast
  then have "\<exists>t s2. getTexture exampleEnv None s1 = Inr (t, s2)
              \<and> occurrences isRaster (trace s2) = 2"
    using r by simp
  then show ?thesis
    using s1(1,3) f ne a shownSkin_props(2) by simp
qed

text \<open>
  C6. Every \<open>setTextBubble\<close> and, on a skin that is not disposed, every \<open>setStyle\<close> emits
  the "visual changed" notification exactly once, whatever the old and the new values;
  reading \<open>size\<close> and calling \<open>getTexture\<close> emit none, whether \<open>getTexture\<close> returns or
  throws.
\<close>

theorem wasAltered_emitted:
  "notifications (setTextBubble type txt left s) = notifications s + 1
   \<and> (canvasLive s \<longrightarrow>
        (\<exists>s1. setStyle p s = Inr s1 \<and> notifications s1 = notifications s + 1))
   \<and> notifications (snd (getSize E s)) = notifications s
   \<and> notifications (stateAfter (getTexture E sc s)) = notifications s
   \<and> (canvasLive s \<and> \<not> surfaceEmpty E (requestedScale sc) s \<longrightarrow>
        (\<exists>t s2. getTexture E sc s = Inr (t, s2) \<and> notifications s2 = notifications s))"
proof -
  have 1: "notifications (setTextBubble type txt left s) = notifications s + 1"
    by (simp add: notifications_def setTextBubble_def emitWasAltered_def emit_def
          occurrences_append occurrences_Cons occurrences_Nil)
  have 2: "\<exists>s1. setStyle p s = Inr s1 \<and> notifications s1 = notifications s + 1"
    if "canvasLive s"
    by (simp add: setStyle_live [OF that] notifications_def occurrences_append
          occurrences_Cons occurrences_Nil)
  have 3: "notifications (snd (getSize E s)) = notifications s"
    by (simp add: notifications_def getSize_occurrences)
  have 4: "notifications (stateAfter (getTexture E sc s)) = notifications s"
    by (simp add: notifications_def getTexture_after(1))
  have 5: "\<exists>t s2. getTexture E sc s = Inr (t, s2) \<and> notifications s2 = notifications s"
    if "canvasLive s" and "\<not> surfaceEmpty E (requestedScale sc) s"
  proof -
    have "\<not> (needsRender sc s \<and> surfaceEmpty E (requestedScale sc) s)"
      using that(2) by simp
    from getTexture_props [OF that(1) this] show ?thesis
      unfolding notifications_def by blast
  qed
  show ?thesis
    using 1 2 3 4 5 by blast
qed

theorem wasAltered_emitted_witness:
  "canvasLive helloSkin
   \<and> \<not> surfaceEmpty exampleEnv (requestedScale None) helloSkin
   \<and> notifications helloSkin = 1
   \<and> (\<exists>s1. setStyle bigFont helloSkin = Inr s1 \<and> notifications s1 = 2)
   \<and> notifications (stateAfter (getTexture exampleEnv None helloSkin)) = 1
   \<and> (\<exists>t s2. getTexture exampleEnv None helloSkin = Inr (t, s2) \<and> notifications s2 = 1)"
proof -
  have n: "notifications helloSkin = 1"
    by (simp add: notifications_def helloSkin_fields occurrences_def)
  have ne: "\<not> surfaceEmpty exampleEnv (requestedScale None) helloSkin"
    using helloSkin_surface [of 1] by (simp add: requestedScale_values)
  show ?thesis
    using wasAltered_emitted [of "''say''" "''Hi''" False helloSkin bigFont exampleEnv None] ne
    by (simp add: helloSkin_fields n numeral_2_eq_2)
qed

end
